theory Spec2Isabelle
  imports Complex_Main
begin

section \<open>Strings and the annotation parser (app.py, extract\_gene\_info)\<close>

text \<open>
  Python strings are modelled as \<open>string\<close>; one \<open>char\<close> stands for one code point, so
  the model speaks about ASCII annotation text.

  \<open>re_search_group key s\<close> is \<open>re.search(key + '([^;]+)', s)\<close> followed by
  \<open>.group(1)\<close>, for a key without regular-expression metacharacters (the four keys
  of the source are such): the scan goes left to right, a position matches when
  the key stands there and at least one character other than \<open>;\<close> follows it,
  and the group is the longest run of such characters. \<open>None\<close> is the failed search.
\<close>

definition not_semi :: "char \<Rightarrow> bool" where
  "not_semi c = (c \<noteq> CHR '';'')"

fun re_search_group :: "string \<Rightarrow> string \<Rightarrow> string option" where
  "re_search_group key [] = None"
| "re_search_group key (c # cs) =
     (if take (length key) (c # cs) = key
         \<and> takeWhile not_semi (drop (length key) (c # cs)) \<noteq> []
      then Some (takeWhile not_semi (drop (length key) (c # cs)))
      else re_search_group key cs)"

text \<open>
  \<open>extract_gene_info\<close>, lines 36 to 61. The argument is \<open>None\<close> where
  \<open>pd.isna\<close> holds and \<open>Some s\<close> for the text \<open>s\<close>. The source has no raise and
  no indexing that can fail, so the result is a plain pair.
\<close>

definition extract_gene_info :: "string option \<Rightarrow> string \<times> string" where
  "extract_gene_info attributes_str =
     (case attributes_str of
        None \<Rightarrow> (''Unknown'', ''Unknown'')
      | Some s \<Rightarrow>
          (let gene_name = (case re_search_group ''gene='' s of
                              Some g \<Rightarrow> g | None \<Rightarrow> ''Unknown'');
               locus_tag = (case re_search_group ''locus_tag='' s of
                              Some l \<Rightarrow> l | None \<Rightarrow> ''Unknown'');
               gene_name' =
                 (if gene_name = ''Unknown''
                  then (case re_search_group ''Name='' s of
                          Some n \<Rightarrow> n
                        | None \<Rightarrow>
                            (case re_search_group ''product='' s of
                               Some p \<Rightarrow> take 30 p
                             | None \<Rightarrow> gene_name))
                  else gene_name)
           in (gene_name', locus_tag)))"

text \<open>
  The parser as section 4.1 of the specification words it, for comparison with
  the source: the text is cut at every \<open>;\<close> into tokens, and the value of a key is
  what follows \<open>key=\<close> in the first token that starts with it.
\<close>

fun split_semis :: "string \<Rightarrow> string list" where
  "split_semis [] = [[]]"
| "split_semis (c # cs) =
     (if c = CHR '';'' then [] # split_semis cs
      else (case split_semis cs of
              t # ts \<Rightarrow> (c # t) # ts
            | [] \<Rightarrow> [[c]]))"

definition token_value :: "string \<Rightarrow> string list \<Rightarrow> string option" where
  "token_value key tokens =
     (case filter (\<lambda>t. take (length key) t = key) tokens of
        [] \<Rightarrow> None
      | t # _ \<Rightarrow> Some (drop (length key) t))"

definition spec_parse :: "string option \<Rightarrow> string \<times> string" where
  "spec_parse attributes =
     (case attributes of
        None \<Rightarrow> (''Unknown'', ''Unknown'')
      | Some s \<Rightarrow>
          (let tokens = split_semis s
           in ((case token_value ''gene='' tokens of
                  Some g \<Rightarrow> g
                | None \<Rightarrow>
                    (case token_value ''Name='' tokens of
                       Some n \<Rightarrow> n
                     | None \<Rightarrow>
                         (case token_value ''product='' tokens of
                            Some p \<Rightarrow> take 30 p
                          | None \<Rightarrow> ''Unknown''))),
               (case token_value ''locus_tag='' tokens of
                  Some l \<Rightarrow> l
                | None \<Rightarrow> ''Unknown''))))"

section \<open>Numbers, cells and frames\<close>

text \<open>
  A float of the source is the real number it denotes, or one of the three special
  values. Comparisons are those of IEEE floats: every comparison with \<open>NaN\<close> is
  false. Rounding is not modelled: \<open>1e-300\<close> is the real \<open>1 / 10 ^ 300\<close> and
  \<open>np.log10\<close> is the real logarithm.
\<close>

datatype pyfloat = Finite real | PosInf | NegInf | NaN

fun flt_lt :: "pyfloat \<Rightarrow> pyfloat \<Rightarrow> bool" where
  "flt_lt (Finite x) (Finite y) = (x < y)"
| "flt_lt (Finite x) PosInf = True"
| "flt_lt NegInf (Finite y) = True"
| "flt_lt NegInf PosInf = True"
| "flt_lt _ _ = False"

fun flt_le :: "pyfloat \<Rightarrow> pyfloat \<Rightarrow> bool" where
  "flt_le (Finite x) (Finite y) = (x \<le> y)"
| "flt_le (Finite x) PosInf = True"
| "flt_le NegInf (Finite y) = True"
| "flt_le NegInf PosInf = True"
| "flt_le PosInf PosInf = True"
| "flt_le NegInf NegInf = True"
| "flt_le _ _ = False"

definition flt_ge :: "pyfloat \<Rightarrow> pyfloat \<Rightarrow> bool" where
  "flt_ge a b = flt_le b a"

fun flt_neg :: "pyfloat \<Rightarrow> pyfloat" where
  "flt_neg (Finite x) = Finite (- x)"
| "flt_neg PosInf = NegInf"
| "flt_neg NegInf = PosInf"
| "flt_neg NaN = NaN"

text \<open>\<open>np.log10\<close> on one float: \<open>-inf\<close> at zero, \<open>nan\<close> below zero (a warning, no raise).\<close>

fun flt_log10 :: "pyfloat \<Rightarrow> pyfloat" where
  "flt_log10 (Finite x) = (if 0 < x then Finite (log 10 x) else if x = 0 then NegInf else NaN)"
| "flt_log10 PosInf = PosInf"
| "flt_log10 NegInf = NaN"
| "flt_log10 NaN = NaN"

text \<open>
  A cell of a table is a number or a text; the missing value of pandas is the
  number \<open>NaN\<close>. A column that holds a text has dtype \<open>object\<close>, on which the
  numeric operations of the source raise \<open>TypeError\<close>.
\<close>

datatype cell = Num pyfloat | Str string

datatype error = KeyError "string list" | TypeError | ValueError

fun isna :: "cell \<Rightarrow> bool" where
  "isna (Num NaN) = True"
| "isna _ = False"

fun as_numbers :: "cell list \<Rightarrow> error + pyfloat list" where
  "as_numbers [] = Inr []"
| "as_numbers (Num x # cs) =
     (case as_numbers cs of Inl e \<Rightarrow> Inl e | Inr xs \<Rightarrow> Inr (x # xs))"
| "as_numbers (Str s # cs) = Inl TypeError"

text \<open>
  A \<open>DataFrame\<close>: the row labels (\<open>df.index\<close>) and the columns in their order, each
  with one cell per row.
\<close>

record frame =
  index :: "nat list"
  cols :: "(string \<times> cell list) list"

definition columns :: "frame \<Rightarrow> string list" where
  "columns f = map fst (cols f)"

definition nrows :: "frame \<Rightarrow> nat" where
  "nrows f = length (index f)"

definition wf_frame :: "frame \<Rightarrow> bool" where
  "wf_frame f = list_all (\<lambda>c. length (snd c) = length (index f)) (cols f)"

text \<open>\<open>df[name]\<close>: the column, or \<open>KeyError\<close>.\<close>

definition getitem :: "frame \<Rightarrow> string \<Rightarrow> error + cell list" where
  "getitem f name =
     (case map_of (cols f) name of
        None \<Rightarrow> Inl (KeyError [name])
      | Some vs \<Rightarrow> Inr vs)"

text \<open>\<open>df[name] = vs\<close>: an existing column is overwritten in place, a new one is appended.\<close>

fun assign :: "string \<Rightarrow> cell list \<Rightarrow> (string \<times> cell list) list \<Rightarrow> (string \<times> cell list) list" where
  "assign name vs [] = [(name, vs)]"
| "assign name vs (c # cs) =
     (if fst c = name then (name, vs) # cs else c # assign name vs cs)"

definition setitem :: "frame \<Rightarrow> string \<Rightarrow> cell list \<Rightarrow> frame" where
  "setitem f name vs = f\<lparr>cols := assign name vs (cols f)\<rparr>"

text \<open>\<open>df[mask]\<close>: the rows where the boolean mask holds, labels kept.\<close>

definition select_mask :: "bool list \<Rightarrow> 'a list \<Rightarrow> 'a list" where
  "select_mask keep xs = map snd (filter fst (zip keep xs))"

definition filter_rows :: "bool list \<Rightarrow> frame \<Rightarrow> frame" where
  "filter_rows keep f =
     \<lparr>index = select_mask keep (index f),
      cols = map (\<lambda>c. (fst c, select_mask keep (snd c))) (cols f)\<rparr>"


text \<open>
  \<open>df.dropna(subset=names)\<close>: \<open>KeyError\<close> with the names that are no column;
  otherwise the rows in which no cell of those columns is missing.
\<close>

fun notna_mask :: "frame \<Rightarrow> string list \<Rightarrow> bool list" where
  "notna_mask f [] = replicate (nrows f) True"
| "notna_mask f (name # names) =
     (case map_of (cols f) name of
        None \<Rightarrow> notna_mask f names
      | Some vs \<Rightarrow> map2 (\<and>) (map (\<lambda>c. \<not> isna c) vs) (notna_mask f names))"

definition dropna :: "frame \<Rightarrow> string list \<Rightarrow> error + frame" where
  "dropna f subs =
     (case filter (\<lambda>name. name \<notin> set (columns f)) subs of
        [] \<Rightarrow> Inr (filter_rows (notna_mask f subs) f)
      | m # ms \<Rightarrow> Inl (KeyError (m # ms)))"

text \<open>Element-wise operations on a column (a \<open>Series\<close>).\<close>

definition series_lt :: "cell list \<Rightarrow> pyfloat \<Rightarrow> error + bool list" where
  "series_lt vs t =
     (case as_numbers vs of Inl e \<Rightarrow> Inl e | Inr xs \<Rightarrow> Inr (map (\<lambda>x. flt_lt x t) xs))"

definition series_ge :: "cell list \<Rightarrow> pyfloat \<Rightarrow> error + bool list" where
  "series_ge vs t =
     (case as_numbers vs of Inl e \<Rightarrow> Inl e | Inr xs \<Rightarrow> Inr (map (\<lambda>x. flt_ge x t) xs))"

definition series_le :: "cell list \<Rightarrow> pyfloat \<Rightarrow> error + bool list" where
  "series_le vs t =
     (case as_numbers vs of Inl e \<Rightarrow> Inl e | Inr xs \<Rightarrow> Inr (map (\<lambda>x. flt_le x t) xs))"

text \<open>\<open>series.replace(0, v)\<close>: the cells equal to zero become \<open>v\<close>, every other cell stays.\<close>

definition replace_zero :: "real \<Rightarrow> cell list \<Rightarrow> cell list" where
  "replace_zero v vs = map (\<lambda>c. if c = Num (Finite 0) then Num (Finite v) else c) vs"

definition np_log10 :: "cell list \<Rightarrow> error + pyfloat list" where
  "np_log10 vs =
     (case as_numbers vs of Inl e \<Rightarrow> Inl e | Inr xs \<Rightarrow> Inr (map flt_log10 xs))"

text \<open>
  \<open>np.select(condlist, choicelist, default)\<close> over \<open>n\<close> rows: per row the choice of
  the first condition that holds, the default when none does.
\<close>

fun np_select :: "bool list list \<Rightarrow> 'a list \<Rightarrow> 'a \<Rightarrow> nat \<Rightarrow> 'a list" where
  "np_select (c # cs) (x # xs) d n =
     map2 (\<lambda>b r. if b then x else r) c (np_select cs xs d n)"
| "np_select _ _ d n = replicate n d"

section \<open>The session: frames as objects, and the warnings shown\<close>

text \<open>
  The source mutates some frames in place and copies others, so frames live in
  a heap and a variable of the source holds a position in it. \<open>warnings\<close> collects
  the texts passed to \<open>st.warning\<close>.
\<close>

record session =
  heap :: "frame list"
  warnings :: "string list"

definition new_frame :: "session \<Rightarrow> frame \<Rightarrow> nat \<times> session" where
  "new_frame st f = (length (heap st), st\<lparr>heap := heap st @ [f]\<rparr>)"

definition df_copy :: "session \<Rightarrow> nat \<Rightarrow> nat \<times> session" where
  "df_copy st df = new_frame st (heap st ! df)"

definition df_setitem :: "session \<Rightarrow> nat \<Rightarrow> string \<Rightarrow> cell list \<Rightarrow> session" where
  "df_setitem st df name vs = st\<lparr>heap := (heap st)[df := setitem (heap st ! df) name vs]\<rparr>"

definition st_warning :: "session \<Rightarrow> string \<Rightarrow> session" where
  "st_warning st msg = st\<lparr>warnings := warnings st @ [msg]\<rparr>"

section \<open>The classifier (app.py, filter\_deseq\_data)\<close>

text \<open>
  Lines 68 and 69: \<open>(df['padj'] < t) & (df['log2FoldChange'] >= u)\<close> and its
  sibling with \<open><=\<close>, evaluated left to right.
\<close>

definition up_condition :: "frame \<Rightarrow> pyfloat \<Rightarrow> pyfloat \<Rightarrow> error + bool list" where
  "up_condition f padj_threshold log2fc_up =
     (case getitem f ''padj'' of Inl e \<Rightarrow> Inl e | Inr p \<Rightarrow>
      case series_lt p padj_threshold of Inl e \<Rightarrow> Inl e | Inr a \<Rightarrow>
      case getitem f ''log2FoldChange'' of Inl e \<Rightarrow> Inl e | Inr l \<Rightarrow>
      case series_ge l log2fc_up of Inl e \<Rightarrow> Inl e | Inr b \<Rightarrow>
      Inr (map2 (\<and>) a b))"

definition down_condition :: "frame \<Rightarrow> pyfloat \<Rightarrow> pyfloat \<Rightarrow> error + bool list" where
  "down_condition f padj_threshold log2fc_down =
     (case getitem f ''padj'' of Inl e \<Rightarrow> Inl e | Inr p \<Rightarrow>
      case series_lt p padj_threshold of Inl e \<Rightarrow> Inl e | Inr a \<Rightarrow>
      case getitem f ''log2FoldChange'' of Inl e \<Rightarrow> Inl e | Inr l \<Rightarrow>
      case series_le l log2fc_down of Inl e \<Rightarrow> Inl e | Inr b \<Rightarrow>
      Inr (map2 (\<and>) a b))"

definition conditions :: "frame \<Rightarrow> pyfloat \<Rightarrow> pyfloat \<Rightarrow> pyfloat \<Rightarrow> error + bool list list" where
  "conditions f padj_threshold log2fc_up log2fc_down =
     (case up_condition f padj_threshold log2fc_up of Inl e \<Rightarrow> Inl e | Inr c1 \<Rightarrow>
      case down_condition f padj_threshold log2fc_down of Inl e \<Rightarrow> Inl e | Inr c2 \<Rightarrow>
      Inr [c1, c2])"

definition choices :: "string list" where
  "choices = [''Upregulated'', ''Downregulated'']"

text \<open>Line 74: \<open>-np.log10(df['padj'].replace(0, 1e-300))\<close>.\<close>

definition padj_floor :: real where
  "padj_floor = 1 / 10 ^ 300"

definition neg_log10_padj :: "frame \<Rightarrow> error + pyfloat list" where
  "neg_log10_padj f =
     (case getitem f ''padj'' of Inl e \<Rightarrow> Inl e | Inr p \<Rightarrow>
      case np_log10 (replace_zero padj_floor p) of Inl e \<Rightarrow> Inl e | Inr ys \<Rightarrow>
      Inr (map flt_neg ys))"

text \<open>
  Lines 63 to 76. The result is the position of the new frame, or the error
  raised; the session returned holds the frames as the call left them.
\<close>

definition filter_deseq_data ::
  "session \<Rightarrow> nat \<Rightarrow> pyfloat \<Rightarrow> pyfloat \<Rightarrow> pyfloat \<Rightarrow> (error + nat) \<times> session" where
  "filter_deseq_data st df padj_threshold log2fc_up log2fc_down =
     (case df_copy st df of (copy, st1) \<Rightarrow>
      case conditions (heap st1 ! copy) padj_threshold log2fc_up log2fc_down of
        Inl e \<Rightarrow> (Inl e, st1)
      | Inr conds \<Rightarrow>
          (let st2 = df_setitem st1 copy ''Significance''
                       (map Str (np_select conds choices ''Not Significant''
                                   (nrows (heap st1 ! copy))))
           in case neg_log10_padj (heap st2 ! copy) of
                Inl e \<Rightarrow> (Inl e, st2)
              | Inr ys \<Rightarrow> (Inr copy, df_setitem st2 copy ''-log10(padj)'' (map Num ys))))"

section \<open>Ingestion and the views (app.py, the main script)\<close>

text \<open>\<open>str\<close> of a row label, a natural number: its decimal digits.\<close>

definition digit_char :: "nat \<Rightarrow> char" where
  "digit_char d = char_of (48 + d)"

fun str_nat :: "nat \<Rightarrow> string" where
  "str_nat n = (if n < 10 then [digit_char n] else str_nat (n div 10) @ [digit_char (n mod 10)])"

declare str_nat.simps [simp del]

text \<open>
  The argument that one cell of the \<open>Attributes\<close> column gives to
  \<open>extract_gene_info\<close>: missing, or its text. The text of a number is what
  \<open>str\<close> prints for a float, which this model takes as the parameter \<open>float_str\<close>.
\<close>

fun attributes_arg :: "(pyfloat \<Rightarrow> string) \<Rightarrow> cell \<Rightarrow> string option" where
  "attributes_arg float_str (Str s) = Some s"
| "attributes_arg float_str (Num x) = (if x = NaN then None else Some (float_str x))"

text \<open>
  Lines 184 to 190: the labels of the genes, written into \<open>df\<close> itself. On a
  frame without rows \<open>apply\<close> returns an empty \<open>Series\<close>, not a frame of two
  columns, and the assignment to the two columns raises \<open>ValueError\<close> (columns
  must be same length as key).
\<close>

definition attributes_warning :: string where
  "attributes_warning = '''Attributes' column not found. Using row indices for labels.''"

definition label_genes :: "(pyfloat \<Rightarrow> string) \<Rightarrow> session \<Rightarrow> nat \<Rightarrow> (error + unit) \<times> session" where
  "label_genes float_str st df =
     (if ''Attributes'' \<in> set (columns (heap st ! df))
      then (case getitem (heap st ! df) ''Attributes'' of
              Inl e \<Rightarrow> (Inl e, st)
            | Inr attrs \<Rightarrow>
                (if attrs = [] then (Inl ValueError, st)
                 else (let info = map (\<lambda>x. extract_gene_info (attributes_arg float_str x)) attrs;
                           st1 = df_setitem st df ''gene_name'' (map (\<lambda>p. Str (fst p)) info);
                           st2 = df_setitem st1 df ''locus_tag'' (map (\<lambda>p. Str (snd p)) info)
                       in (Inr (), st2))))
      else (let st0 = st_warning st attributes_warning;
                st1 = df_setitem st0 df ''gene_name''
                        (map (\<lambda>i. Str (str_nat i)) (index (heap st0 ! df)));
                st2 = df_setitem st1 df ''locus_tag''
                        (map (\<lambda>i. Str (str_nat i)) (index (heap st1 ! df)))
            in (Inr (), st2)))"

text \<open>Line 193: \<open>df = df.dropna(subset=[...])\<close> makes a new frame.\<close>

definition df_dropna :: "session \<Rightarrow> nat \<Rightarrow> string list \<Rightarrow> (error + nat) \<times> session" where
  "df_dropna st df subs =
     (case dropna (heap st ! df) subs of
        Inl e \<Rightarrow> (Inl e, st)
      | Inr f \<Rightarrow> (case new_frame st f of (r, st1) \<Rightarrow> (Inr r, st1)))"

text \<open>Lines 184 to 193 (ingestion of the loaded frame) and 184 to 196 (with the classifier).\<close>

definition ingest :: "(pyfloat \<Rightarrow> string) \<Rightarrow> session \<Rightarrow> nat \<Rightarrow> (error + nat) \<times> session" where
  "ingest float_str st df =
     (case label_genes float_str st df of
        (Inl e, st1) \<Rightarrow> (Inl e, st1)
      | (Inr u, st1) \<Rightarrow> df_dropna st1 df [''log2FoldChange'', ''padj''])"

definition main_pipeline ::
  "(pyfloat \<Rightarrow> string) \<Rightarrow> session \<Rightarrow> nat \<Rightarrow> pyfloat \<Rightarrow> pyfloat \<Rightarrow> pyfloat \<Rightarrow> (error + nat) \<times> session" where
  "main_pipeline float_str st df padj_threshold log2fc_up log2fc_down =
     (case ingest float_str st df of
        (Inl e, st1) \<Rightarrow> (Inl e, st1)
      | (Inr df', st1) \<Rightarrow> filter_deseq_data st1 df' padj_threshold log2fc_up log2fc_down)"



















section \<open>Notions used in the statements\<close>

text \<open>
  What follows describes the search of \<open>re_search_group\<close> without recursion.
  \<open>match_here key s\<close>: the key stands at the start of \<open>s\<close> and a character other
  than \<open>;\<close> follows it. \<open>key_absent key s\<close>: the key is nowhere in \<open>s\<close> followed
  by such a character. \<open>key_match key s v\<close>: \<open>v\<close> is the non-empty run of characters
  other than \<open>;\<close> that follows the leftmost such occurrence of the key, up to the
  next \<open>;\<close> or the end of \<open>s\<close>. The key may start anywhere in \<open>s\<close>, also in the
  middle of a longer key.
\<close>

definition match_here :: "string \<Rightarrow> string \<Rightarrow> bool" where
  "match_here key s = (take (length key) s = key \<and> takeWhile not_semi (drop (length key) s) \<noteq> [])"

definition key_absent :: "string \<Rightarrow> string \<Rightarrow> bool" where
  "key_absent key s = (\<not> (\<exists>pre c post. s = pre @ key @ c # post \<and> c \<noteq> CHR '';''))"

definition key_match :: "string \<Rightarrow> string \<Rightarrow> string \<Rightarrow> bool" where
  "key_match key s v =
     (\<exists>pre post. s = pre @ key @ v @ post \<and> v \<noteq> [] \<and> CHR '';'' \<notin> set v
        \<and> (post = [] \<or> hd post = CHR '';'')
        \<and> (\<forall>pre' c post'. s = pre' @ key @ c # post' \<and> c \<noteq> CHR '';'' \<longrightarrow> length pre \<le> length pre'))"

text \<open>
  The label of one row as a function of its own two values and the thresholds,
  the value written for a zero \<open>padj\<close>, and the frame that the classifier leaves
  for a frame \<open>f\<close> whose \<open>padj\<close> and \<open>log2FoldChange\<close> columns hold the numbers
  \<open>xs\<close> and \<open>ys\<close>. The lemmas below show that the source computes them.
\<close>

definition significance_of :: "pyfloat \<Rightarrow> pyfloat \<Rightarrow> pyfloat \<Rightarrow> pyfloat \<Rightarrow> pyfloat \<Rightarrow> string" where
  "significance_of p l t u d =
     (if flt_lt p t \<and> flt_ge l u then ''Upregulated''
      else if flt_lt p t \<and> flt_le l d then ''Downregulated''
      else ''Not Significant'')"

definition floor_zero :: "real \<Rightarrow> pyfloat \<Rightarrow> pyfloat" where
  "floor_zero v x = (if x = Finite 0 then Finite v else x)"

definition annotate :: "frame \<Rightarrow> pyfloat list \<Rightarrow> pyfloat list \<Rightarrow> pyfloat \<Rightarrow> pyfloat \<Rightarrow> pyfloat \<Rightarrow> frame" where
  "annotate f xs ys t u d =
     setitem (setitem f ''Significance'' (map Str (map2 (\<lambda>x y. significance_of x y t u d) xs ys)))
       ''-log10(padj)'' (map Num (map (\<lambda>x. flt_neg (flt_log10 (floor_zero padj_floor x))) xs))"

text \<open>
  Tables for the concrete instances: the three example rows of the
  specification and a row with \<open>padj = 0\<close>.
\<close>

definition example_frame :: frame where
  "example_frame =
     \<lparr>index = [0, 1, 2, 3],
      cols = [(''padj'', [Num (Finite (1 / 1000)), Num (Finite (1 / 10000)), Num (Finite (1 / 5)), Num (Finite 0)]),
              (''log2FoldChange'', [Num (Finite (5 / 2)), Num (Finite (- 3)), Num (Finite (1 / 5)), Num (Finite 1)])]\<rparr>"

definition example_session :: session where
  "example_session = \<lparr>heap = [example_frame], warnings = []\<rparr>"

text \<open>
  A table that already has a column named \<open>Significance\<close>.
\<close>

definition relabelled_frame :: frame where
  "relabelled_frame =
     \<lparr>index = [0],
      cols = [(''padj'', [Num (Finite (1 / 2))]),
              (''Significance'', [Str ''Upregulated'']),
              (''log2FoldChange'', [Num (Finite 2)])]\<rparr>"

text \<open>
  \<open>cell_at f name i\<close> is the cell of column \<open>name\<close> in the row at position \<open>i\<close>.
  \<open>outcome\<close> reads a result: the error, or the frame at the position returned.
\<close>

definition cell_at :: "frame \<Rightarrow> string \<Rightarrow> nat \<Rightarrow> cell option" where
  "cell_at f name i =
     (case getitem f name of
        Inl e \<Rightarrow> None
      | Inr vs \<Rightarrow> if i < length vs then Some (vs ! i) else None)"

definition outcome :: "(error + nat) \<times> session \<Rightarrow> error + frame" where
  "outcome res = (case fst res of Inl e \<Rightarrow> Inl e | Inr r \<Rightarrow> Inr (heap (snd res) ! r))"

text \<open>
  A table whose only \<open>padj\<close> is \<open>1e-305\<close>.
\<close>

definition tiny_padj :: real where
  "tiny_padj = 1 / 10 ^ 305"

definition tiny_padj_frame :: frame where
  "tiny_padj_frame =
     \<lparr>index = [0],
      cols = [(''padj'', [Num (Finite tiny_padj)]),
              (''log2FoldChange'', [Num (Finite 2)])]\<rparr>"

definition tiny_padj_session :: session where
  "tiny_padj_session = \<lparr>heap = [tiny_padj_frame], warnings = []\<rparr>"

definition relabelled_session :: session where
  "relabelled_session = \<lparr>heap = [relabelled_frame], warnings = []\<rparr>"

definition other_frame :: frame where
  "other_frame =
     \<lparr>index = [0, 1],
      cols = [(''log2FoldChange'', [Num (Finite (1 / 5)), Num (Finite (5 / 2))]),
              (''padj'', [Num (Finite (1 / 5)), Num (Finite (1 / 1000))])]\<rparr>"

definition other_session :: session where
  "other_session = \<lparr>heap = [other_frame], warnings = []\<rparr>"

text \<open>
  \<open>row_complete f i\<close>: the row at position \<open>i\<close> of \<open>f\<close> has a value in both
  \<open>log2FoldChange\<close> and \<open>padj\<close>. \<open>complete_rows f\<close> lists these positions in
  ascending order. \<open>labelled\<close> and \<open>ingested\<close> are the frames that the labelling
  and the whole ingestion leave.
\<close>

definition row_complete :: "frame \<Rightarrow> nat \<Rightarrow> bool" where
  "row_complete f i =
     (case (cell_at f ''log2FoldChange'' i, cell_at f ''padj'' i) of
        (Some a, Some b) \<Rightarrow> \<not> isna a \<and> \<not> isna b
      | _ \<Rightarrow> False)"

definition complete_rows :: "frame \<Rightarrow> nat list" where
  "complete_rows f = filter (row_complete f) [0..<nrows f]"

definition index_labels :: "nat list \<Rightarrow> cell list" where
  "index_labels is = map (\<lambda>i. Str (str_nat i)) is"

definition labelled :: "frame \<Rightarrow> cell list \<Rightarrow> cell list \<Rightarrow> frame" where
  "labelled f g l = setitem (setitem f ''gene_name'' g) ''locus_tag'' l"

definition ingested :: "frame \<Rightarrow> cell list \<Rightarrow> cell list \<Rightarrow> frame" where
  "ingested f g l = filter_rows (map (row_complete f) [0..<nrows f]) (labelled f g l)"

text \<open>
  A loaded table without \<open>Attributes\<close>, with a missing \<open>log2FoldChange\<close> in its
  second row and a missing \<open>padj\<close> in its third; a table whose rows carry the
  labels 1, 2, 3, as \<open>read_csv\<close> makes of a file whose data lines have one
  field more than the header line, the first field being taken as the row label;
  and a table that has neither required column.
\<close>

definition raw_frame :: frame where
  "raw_frame =
     \<lparr>index = [0, 1, 2, 3],
      cols = [(''log2FoldChange'', [Num (Finite (5 / 2)), Num NaN, Num (Finite (- 3)), Num (Finite (1 / 5))]),
              (''padj'', [Num (Finite (1 / 1000)), Num (Finite (1 / 2)), Num NaN, Num (Finite (1 / 5))]),
              (''baseMean'', [Num (Finite 10), Num (Finite 20), Num (Finite 30), Num (Finite 0)]),
              (''wt_Countings'', [Num (Finite 7), Num (Finite 8), Num (Finite 9), Num (Finite 6)])]\<rparr>"

definition raw_session :: session where
  "raw_session = \<lparr>heap = [raw_frame], warnings = []\<rparr>"

definition row_named_frame :: frame where
  "row_named_frame =
     \<lparr>index = [1, 2, 3],
      cols = [(''log2FoldChange'', [Num (Finite (5 / 2)), Num (Finite (- 3)), Num (Finite (1 / 5))]),
              (''padj'', [Num (Finite (1 / 1000)), Num (Finite (1 / 2)), Num (Finite (1 / 5))])]\<rparr>"

definition row_named_session :: session where
  "row_named_session = \<lparr>heap = [row_named_frame], warnings = []\<rparr>"












section \<open>Properties\<close>

subsection \<open>The annotation parser\<close>

lemma match_here_iff:
  "match_here key s = (\<exists>d post. s = key @ d # post \<and> d \<noteq> CHR '';'')"
proof
  assume m: "match_here key s"
  then have k: "take (length key) s = key" and t: "takeWhile not_semi (drop (length key) s) \<noteq> []"
    by (auto simp: match_here_def)
  from t obtain d post where d: "drop (length key) s = d # post" and "not_semi d"
    by (cases "drop (length key) s") (auto split: if_splits)
  have "s = take (length key) s @ drop (length key) s" by simp
  with k d have "s = key @ d # post" by simp
  with \<open>not_semi d\<close> show "\<exists>d post. s = key @ d # post \<and> d \<noteq> CHR '';''"
    by (auto simp: not_semi_def)
next
  assume "\<exists>d post. s = key @ d # post \<and> d \<noteq> CHR '';''"
  then show "match_here key s" by (auto simp: match_here_def not_semi_def)
qed

lemma rsg_Cons:
  "re_search_group key (c # cs) =
     (if match_here key (c # cs) then Some (takeWhile not_semi (drop (length key) (c # cs)))
      else re_search_group key cs)"
  by (simp add: match_here_def)

lemma key_absent_Nil: "key_absent key []"
  by (simp add: key_absent_def)

lemma key_absent_Cons:
  "key_absent key (c # cs) = (\<not> match_here key (c # cs) \<and> key_absent key cs)"
proof -
  have "(\<exists>pre d post. c # cs = pre @ key @ d # post \<and> d \<noteq> CHR '';'')
        = ((\<exists>d post. c # cs = key @ d # post \<and> d \<noteq> CHR '';'')
           \<or> (\<exists>pre d post. cs = pre @ key @ d # post \<and> d \<noteq> CHR '';''))"
    (is "?L = (?A \<or> ?B)")
  proof
    assume ?L
    then obtain pre d post where e: "c # cs = pre @ key @ d # post" and d: "d \<noteq> CHR '';''" by blast
    show "?A \<or> ?B"
    proof (cases pre)
      case Nil with e d show ?thesis by auto
    next
      case (Cons p ps) with e d have "cs = ps @ key @ d # post" by simp
      with d show ?thesis by blast
    qed
  next
    assume "?A \<or> ?B"
    then show ?L
    proof
      assume ?A then show ?L by (metis append_Nil)
    next
      assume ?B
      then obtain pre d post where "cs = pre @ key @ d # post" "d \<noteq> CHR '';''" by blast
      then have "c # cs = (c # pre) @ key @ d # post" by simp
      with \<open>d \<noteq> CHR '';''\<close> show ?L by blast
    qed
  qed
  then show ?thesis by (simp add: key_absent_def match_here_iff)
qed

lemma rsg_None_iff: "(re_search_group key s = None) = key_absent key s"
proof (induction s)
  case Nil show ?case by (simp add: key_absent_Nil)
next
  case (Cons c cs)
  show ?case unfolding rsg_Cons key_absent_Cons using Cons by simp
qed

lemma key_match_here:
  assumes m: "match_here key s"
  shows "key_match key s v = (v = takeWhile not_semi (drop (length key) s))"
proof
  assume km: "key_match key s v"
  then obtain pre post where s: "s = pre @ key @ v @ post" and v: "v \<noteq> []"
    and nv: "CHR '';'' \<notin> set v" and p: "post = [] \<or> hd post = CHR '';''"
    and least: "\<forall>pre' c post'. s = pre' @ key @ c # post' \<and> c \<noteq> CHR '';'' \<longrightarrow> length pre \<le> length pre'"
    unfolding key_match_def by blast
  from m obtain d rest where "s = [] @ key @ d # rest" "d \<noteq> CHR '';''"
    unfolding match_here_iff by auto
  with least have "length pre \<le> length ([]::string)" by blast
  then have "pre = []" by simp
  with s have d: "drop (length key) s = v @ post" by simp
  have all: "\<forall>x\<in>set v. not_semi x" using nv by (auto simp: not_semi_def)
  have "takeWhile not_semi (v @ post) = v"
  proof (cases post)
    case Nil with all show ?thesis by simp
  next
    case (Cons q qs)
    with p have "\<not> not_semi q" by (simp add: not_semi_def)
    with all Cons show ?thesis by (simp add: takeWhile_append2)
  qed
  with d show "v = takeWhile not_semi (drop (length key) s)" by simp
next
  let ?r = "drop (length key) s"
  assume v: "v = takeWhile not_semi ?r"
  from m have k: "take (length key) s = key" and ne: "takeWhile not_semi ?r \<noteq> []"
    by (auto simp: match_here_def)
  have "s = take (length key) s @ ?r" by simp
  also have "?r = takeWhile not_semi ?r @ dropWhile not_semi ?r" by simp
  finally have s: "s = [] @ key @ v @ dropWhile not_semi ?r" using k v by simp
  have nv: "CHR '';'' \<notin> set v"
    using v by (auto dest: set_takeWhileD simp: not_semi_def)
  have p: "dropWhile not_semi ?r = [] \<or> hd (dropWhile not_semi ?r) = CHR '';''"
    using hd_dropWhile [of not_semi ?r] by (auto simp: not_semi_def)
  show "key_match key s v"
    unfolding key_match_def
    apply (rule exI [of _ "[]"])
    apply (rule exI [of _ "dropWhile not_semi ?r"])
    using s v ne nv p by simp
qed

lemma key_match_later:
  assumes m: "\<not> match_here key (c # cs)"
  shows "key_match key (c # cs) v = key_match key cs v"
proof
  assume "key_match key (c # cs) v"
  then obtain pre post where s: "c # cs = pre @ key @ v @ post" and v: "v \<noteq> []"
    and nv: "CHR '';'' \<notin> set v" and p: "post = [] \<or> hd post = CHR '';''"
    and least: "\<forall>pre' d post'. c # cs = pre' @ key @ d # post' \<and> d \<noteq> CHR '';'' \<longrightarrow> length pre \<le> length pre'"
    unfolding key_match_def by blast
  from v obtain d v' where vd: "v = d # v'" by (cases v) auto
  with nv have dd: "d \<noteq> CHR '';''" by auto
  have "pre \<noteq> []"
  proof
    assume "pre = []"
    with s vd have "c # cs = key @ d # (v' @ post)" by simp
    with dd have "match_here key (c # cs)" unfolding match_here_iff by blast
    with m show False by simp
  qed
  then obtain ps where pre: "pre = c # ps" and cs: "cs = ps @ key @ v @ post"
    using s by (cases pre) auto
  have "\<forall>pre' d post'. cs = pre' @ key @ d # post' \<and> d \<noteq> CHR '';'' \<longrightarrow> length ps \<le> length pre'"
  proof (intro allI impI)
    fix pre' d post'
    assume "cs = pre' @ key @ d # post' \<and> d \<noteq> CHR '';''"
    then have "c # cs = (c # pre') @ key @ d # post' \<and> d \<noteq> CHR '';''" by simp
    with least have "length pre \<le> length (c # pre')" by blast
    with pre show "length ps \<le> length pre'" by simp
  qed
  with cs v nv p show "key_match key cs v" unfolding key_match_def by blast
next
  assume "key_match key cs v"
  then obtain pre post where s: "cs = pre @ key @ v @ post" and v: "v \<noteq> []"
    and nv: "CHR '';'' \<notin> set v" and p: "post = [] \<or> hd post = CHR '';''"
    and least: "\<forall>pre' d post'. cs = pre' @ key @ d # post' \<and> d \<noteq> CHR '';'' \<longrightarrow> length pre \<le> length pre'"
    unfolding key_match_def by blast
  have s': "c # cs = (c # pre) @ key @ v @ post" using s by simp
  have "\<forall>pre' d post'. c # cs = pre' @ key @ d # post' \<and> d \<noteq> CHR '';'' \<longrightarrow> length (c # pre) \<le> length pre'"
  proof (intro allI impI)
    fix pre' d post'
    assume a: "c # cs = pre' @ key @ d # post' \<and> d \<noteq> CHR '';''"
    show "length (c # pre) \<le> length pre'"
    proof (cases pre')
      case Nil
      with a have "match_here key (c # cs)" unfolding match_here_iff by auto
      with m show ?thesis by simp
    next
      case (Cons q qs)
      with a have "cs = qs @ key @ d # post' \<and> d \<noteq> CHR '';''" by simp
      with least have "length pre \<le> length qs" by blast
      with Cons show ?thesis by simp
    qed
  qed
  with s' v nv p show "key_match key (c # cs) v" unfolding key_match_def by blast
qed

lemma rsg_Some_iff: "(re_search_group key s = Some v) = key_match key s v"
proof (induction s)
  case Nil show ?case by (simp add: key_match_def)
next
  case (Cons c cs)
  show ?case
  proof (cases "match_here key (c # cs)")
    case True
    then show ?thesis unfolding rsg_Cons key_match_here [OF True] by auto
  next
    case False
    then show ?thesis unfolding rsg_Cons key_match_later [OF False] using Cons by simp
  qed
qed

text \<open>
  C10. Keys are matched as raw substrings, not at \<open>;\<close>-delimited key
  boundaries. In \<open>pseudogene=abcD;locus_tag=b0001\<close> no token starts with
  \<open>gene=\<close> (nor with \<open>Name=\<close> or \<open>product=\<close>), yet the parser returns the value
  of the longer key \<open>pseudogene\<close> as the gene name instead of \<open>Unknown\<close>. The same
  happens for \<open>Name=\<close> inside \<open>shortName=\<close>, for \<open>product=\<close> inside \<open>byproduct=\<close>
  and for \<open>locus_tag=\<close> inside \<open>old_locus_tag=\<close>.
\<close>

theorem raw_substring_keys:
  "extract_gene_info (Some ''pseudogene=abcD;locus_tag=b0001'') = (''abcD'', ''b0001'')
   \<and> token_value ''gene='' (split_semis ''pseudogene=abcD;locus_tag=b0001'') = None
   \<and> spec_parse (Some ''pseudogene=abcD;locus_tag=b0001'') = (''Unknown'', ''b0001'')
   \<and> extract_gene_info (Some ''ID=g7;shortName=xyz'') = (''xyz'', ''Unknown'')
   \<and> token_value ''Name='' (split_semis ''ID=g7;shortName=xyz'') = None
   \<and> extract_gene_info (Some ''ID=g8;byproduct=heat'') = (''heat'', ''Unknown'')
   \<and> token_value ''product='' (split_semis ''ID=g8;byproduct=heat'') = None
   \<and> extract_gene_info (Some ''ID=g9;old_locus_tag=b4'') = (''Unknown'', ''b4'')
   \<and> token_value ''locus_tag='' (split_semis ''ID=g9;old_locus_tag=b4'') = None"
  by (simp add: extract_gene_info_def spec_parse_def token_value_def not_semi_def)

lemma key_match_or_absent: "key_absent key s \<or> (\<exists>v. key_match key s v)"
  using rsg_None_iff [of key s] rsg_Some_iff [of key s] by (cases "re_search_group key s") auto

lemma key_match_unique: "key_match key s v \<Longrightarrow> key_match key s w \<Longrightarrow> v = w"
  using rsg_Some_iff [of key s] by (metis option.inject)

text \<open>
  C3, as the source has it. A missing argument gives \<open>(Unknown, Unknown)\<close>.
  Otherwise, reading "a \<open>key=\<close> value" as the value of the leftmost occurrence of
  the raw substring \<open>key=\<close> that is followed by at least one character other than
  \<open>;\<close> (the run of such characters up to the next \<open>;\<close> or the end of the text):
  the locus tag is the \<open>locus_tag=\<close> value if there is one, else \<open>Unknown\<close>; the
  gene name is the \<open>gene=\<close> value if there is one and it is not the text
  \<open>Unknown\<close>; if there is no \<open>gene=\<close> value, or it is the text \<open>Unknown\<close>, the
  gene name is the \<open>Name=\<close> value, else the \<open>product=\<close> value cut to 30
  characters, else \<open>Unknown\<close>. For every key a text either has a value or has
  none, and never two, so these cases cover every text and the function, which
  is total, fails on none.
\<close>

theorem extract_gene_info_fields:
  "extract_gene_info None = (''Unknown'', ''Unknown'')
   \<and> (key_match ''locus_tag='' s l \<longrightarrow> snd (extract_gene_info (Some s)) = l)
   \<and> (key_absent ''locus_tag='' s \<longrightarrow> snd (extract_gene_info (Some s)) = ''Unknown'')
   \<and> (key_match ''gene='' s g \<and> g \<noteq> ''Unknown'' \<longrightarrow> fst (extract_gene_info (Some s)) = g)
   \<and> ((key_absent ''gene='' s \<or> key_match ''gene='' s ''Unknown'') \<and> key_match ''Name='' s n
        \<longrightarrow> fst (extract_gene_info (Some s)) = n)
   \<and> ((key_absent ''gene='' s \<or> key_match ''gene='' s ''Unknown'') \<and> key_absent ''Name='' s
          \<and> key_match ''product='' s p
        \<longrightarrow> fst (extract_gene_info (Some s)) = take 30 p)
   \<and> ((key_absent ''gene='' s \<or> key_match ''gene='' s ''Unknown'') \<and> key_absent ''Name='' s
          \<and> key_absent ''product='' s
        \<longrightarrow> fst (extract_gene_info (Some s)) = ''Unknown'')
   \<and> (\<forall>key. key_absent key s \<or> (\<exists>v. key_match key s v))
   \<and> (\<forall>key v w. key_match key s v \<and> key_match key s w \<longrightarrow> v = w)"
proof -
  have gene_none: "(key_absent ''gene='' s \<or> key_match ''gene='' s ''Unknown'')
        = (re_search_group ''gene='' s = None \<or> re_search_group ''gene='' s = Some ''Unknown'')"
    by (simp only: rsg_None_iff rsg_Some_iff)
  have 0: "extract_gene_info None = (''Unknown'', ''Unknown'')"
    by (simp add: extract_gene_info_def)
  have 1: "key_match ''locus_tag='' s l \<longrightarrow> snd (extract_gene_info (Some s)) = l"
    unfolding rsg_Some_iff [symmetric] by (simp add: extract_gene_info_def Let_def)
  have 2: "key_absent ''locus_tag='' s \<longrightarrow> snd (extract_gene_info (Some s)) = ''Unknown''"
    unfolding rsg_None_iff [symmetric] by (simp add: extract_gene_info_def Let_def)
  have 3: "key_match ''gene='' s g \<and> g \<noteq> ''Unknown'' \<longrightarrow> fst (extract_gene_info (Some s)) = g"
    unfolding rsg_Some_iff [symmetric] by (simp add: extract_gene_info_def Let_def)
  have 4: "(key_absent ''gene='' s \<or> key_match ''gene='' s ''Unknown'') \<and> key_match ''Name='' s n
        \<longrightarrow> fst (extract_gene_info (Some s)) = n"
    unfolding gene_none unfolding rsg_Some_iff [symmetric]
    by (auto simp: extract_gene_info_def Let_def)
  have 5: "(key_absent ''gene='' s \<or> key_match ''gene='' s ''Unknown'') \<and> key_absent ''Name='' s
          \<and> key_match ''product='' s p
        \<longrightarrow> fst (extract_gene_info (Some s)) = take 30 p"
    unfolding gene_none unfolding rsg_Some_iff [symmetric] rsg_None_iff [symmetric]
    by (auto simp: extract_gene_info_def Let_def)
  have 6: "(key_absent ''gene='' s \<or> key_match ''gene='' s ''Unknown'') \<and> key_absent ''Name='' s
          \<and> key_absent ''product='' s
        \<longrightarrow> fst (extract_gene_info (Some s)) = ''Unknown''"
    unfolding gene_none unfolding rsg_None_iff [symmetric]
    by (auto simp: extract_gene_info_def Let_def)
  have 7: "\<forall>key. key_absent key s \<or> (\<exists>v. key_match key s v)"
    using key_match_or_absent by blast
  have 8: "\<forall>key v w. key_match key s v \<and> key_match key s w \<longrightarrow> v = w"
    using key_match_unique by blast
  from 0 1 2 3 4 5 6 7 8 show ?thesis by (intro conjI)
qed

text \<open>
  Instances of C3: the example of the specification, a text with \<open>Name=\<close> only,
  a product of more than 30 characters, a \<open>gene=\<close> with an empty value, which
  is no match, and two texts whose \<open>gene=\<close> value is the text \<open>Unknown\<close>, where
  the \<open>Name=\<close> value and the \<open>product=\<close> value are returned.
\<close>

theorem extract_gene_info_fields_witness:
  "key_match ''locus_tag=''
     ''ID=gene1;gene=dnaA;locus_tag=b0001;product=chromosomal replication initiator'' ''b0001''
   \<and> key_match ''gene=''
     ''ID=gene1;gene=dnaA;locus_tag=b0001;product=chromosomal replication initiator'' ''dnaA''
   \<and> ''dnaA'' \<noteq> ''Unknown''
   \<and> extract_gene_info
       (Some ''ID=gene1;gene=dnaA;locus_tag=b0001;product=chromosomal replication initiator'')
       = (''dnaA'', ''b0001'')
   \<and> key_absent ''gene='' ''ID=g2;Name=thrL;Note=x''
   \<and> key_match ''Name='' ''ID=g2;Name=thrL;Note=x'' ''thrL''
   \<and> key_absent ''locus_tag='' ''ID=g2;Name=thrL;Note=x''
   \<and> extract_gene_info (Some ''ID=g2;Name=thrL;Note=x'') = (''thrL'', ''Unknown'')
   \<and> key_absent ''gene='' ''product=chromosomal replication initiator protein DnaA''
   \<and> key_absent ''Name='' ''product=chromosomal replication initiator protein DnaA''
   \<and> key_match ''product='' ''product=chromosomal replication initiator protein DnaA''
        ''chromosomal replication initiator protein DnaA''
   \<and> fst (extract_gene_info (Some ''product=chromosomal replication initiator protein DnaA''))
       = ''chromosomal replication initia''
   \<and> key_absent ''gene='' ''ID=g4;gene=;Note=none''
   \<and> key_absent ''Name='' ''ID=g4;gene=;Note=none''
   \<and> key_absent ''product='' ''ID=g4;gene=;Note=none''
   \<and> fst (extract_gene_info (Some ''ID=g4;gene=;Note=none'')) = ''Unknown''
   \<and> key_match ''gene='' ''ID=g6;gene=Unknown;Name=yaaA'' ''Unknown''
   \<and> key_match ''Name='' ''ID=g6;gene=Unknown;Name=yaaA'' ''yaaA''
   \<and> fst (extract_gene_info (Some ''ID=g6;gene=Unknown;Name=yaaA'')) = ''yaaA''
   \<and> key_match ''gene='' ''gene=Unknown;product=hypothetical protein'' ''Unknown''
   \<and> key_absent ''Name='' ''gene=Unknown;product=hypothetical protein''
   \<and> key_match ''product='' ''gene=Unknown;product=hypothetical protein'' ''hypothetical protein''
   \<and> fst (extract_gene_info (Some ''gene=Unknown;product=hypothetical protein''))
       = ''hypothetical protein''"
proof -
  let ?s1 = "''ID=gene1;gene=dnaA;locus_tag=b0001;product=chromosomal replication initiator''"
  let ?s2 = "''ID=g2;Name=thrL;Note=x''"
  let ?s3 = "''product=chromosomal replication initiator protein DnaA''"
  let ?s4 = "''ID=g4;gene=;Note=none''"
  let ?s5 = "''ID=g6;gene=Unknown;Name=yaaA''"
  let ?s6 = "''gene=Unknown;product=hypothetical protein''"
  have a1: "key_match ''locus_tag='' ?s1 ''b0001''"
    unfolding rsg_Some_iff [symmetric] by (simp add: not_semi_def)
  have a2: "key_match ''gene='' ?s1 ''dnaA''"
    unfolding rsg_Some_iff [symmetric] by (simp add: not_semi_def)
  have a3: "''dnaA'' \<noteq> ''Unknown''" by simp
  have b1: "key_absent ''gene='' ?s2"
    unfolding rsg_None_iff [symmetric] by (simp add: not_semi_def)
  have b2: "key_match ''Name='' ?s2 ''thrL''"
    unfolding rsg_Some_iff [symmetric] by (simp add: not_semi_def)
  have b3: "key_absent ''locus_tag='' ?s2"
    unfolding rsg_None_iff [symmetric] by (simp add: not_semi_def)
  have c1: "key_absent ''gene='' ?s3"
    unfolding rsg_None_iff [symmetric] by (simp add: not_semi_def)
  have c2: "key_absent ''Name='' ?s3"
    unfolding rsg_None_iff [symmetric] by (simp add: not_semi_def)
  have c3: "key_match ''product='' ?s3 ''chromosomal replication initiator protein DnaA''"
    unfolding rsg_Some_iff [symmetric] by (simp add: not_semi_def)
  have d1: "key_absent ''gene='' ?s4"
    unfolding rsg_None_iff [symmetric] by (simp add: not_semi_def)
  have d2: "key_absent ''Name='' ?s4"
    unfolding rsg_None_iff [symmetric] by (simp add: not_semi_def)
  have d3: "key_absent ''product='' ?s4"
    unfolding rsg_None_iff [symmetric] by (simp add: not_semi_def)
  have e5a: "key_match ''gene='' ?s5 ''Unknown''"
    unfolding rsg_Some_iff [symmetric] by (simp add: not_semi_def)
  have e5b: "key_match ''Name='' ?s5 ''yaaA''"
    unfolding rsg_Some_iff [symmetric] by (simp add: not_semi_def)
  have e6a: "key_match ''gene='' ?s6 ''Unknown''"
    unfolding rsg_Some_iff [symmetric] by (simp add: not_semi_def)
  have e6b: "key_absent ''Name='' ?s6"
    unfolding rsg_None_iff [symmetric] by (simp add: not_semi_def)
  have e6c: "key_match ''product='' ?s6 ''hypothetical protein''"
    unfolding rsg_Some_iff [symmetric] by (simp add: not_semi_def)
  note T5 = extract_gene_info_fields [of ?s5 _ _ "''yaaA''"]
  note T6 = extract_gene_info_fields [of ?s6 _ _ _ "''hypothetical protein''"]
  note T1 = extract_gene_info_fields [of ?s1 "''b0001''" "''dnaA''"]
  note T2 = extract_gene_info_fields [of ?s2 _ _ "''thrL''"]
  note T3 = extract_gene_info_fields [of ?s3 _ _ _ "''chromosomal replication initiator protein DnaA''"]
  note T4 = extract_gene_info_fields [of ?s4]
  have e1: "snd (extract_gene_info (Some ?s1)) = ''b0001''"
    by (rule T1 [THEN conjunct2, THEN conjunct1, THEN mp, OF a1])
  have e2: "fst (extract_gene_info (Some ?s1)) = ''dnaA''"
    by (rule T1 [THEN conjunct2, THEN conjunct2, THEN conjunct2, THEN conjunct1, THEN mp,
          OF conjI [OF a2 a3]])
  from e1 e2 have e: "extract_gene_info (Some ?s1) = (''dnaA'', ''b0001'')"
    by (cases "extract_gene_info (Some ?s1)") simp
  have f1: "fst (extract_gene_info (Some ?s2)) = ''thrL''"
    by (rule T2 [THEN conjunct2, THEN conjunct2, THEN conjunct2, THEN conjunct2, THEN conjunct1,
          THEN mp, OF conjI [OF disjI1 [OF b1] b2]])
  have f2: "snd (extract_gene_info (Some ?s2)) = ''Unknown''"
    by (rule T2 [THEN conjunct2, THEN conjunct2, THEN conjunct1, THEN mp, OF b3])
  from f1 f2 have f: "extract_gene_info (Some ?s2) = (''thrL'', ''Unknown'')"
    by (cases "extract_gene_info (Some ?s2)") simp
  have "fst (extract_gene_info (Some ?s3)) = take 30 ''chromosomal replication initiator protein DnaA''"
    by (rule T3 [THEN conjunct2, THEN conjunct2, THEN conjunct2, THEN conjunct2, THEN conjunct2,
          THEN conjunct1, THEN mp, OF conjI [OF disjI1 [OF c1] conjI [OF c2 c3]]])
  then have g: "fst (extract_gene_info (Some ?s3)) = ''chromosomal replication initia''"
    by simp
  have h: "fst (extract_gene_info (Some ?s4)) = ''Unknown''"
    by (rule T4 [THEN conjunct2, THEN conjunct2, THEN conjunct2, THEN conjunct2, THEN conjunct2,
          THEN conjunct2, THEN conjunct1, THEN mp, OF conjI [OF disjI1 [OF d1] conjI [OF d2 d3]]])
  have i5: "fst (extract_gene_info (Some ?s5)) = ''yaaA''"
    by (rule T5 [THEN conjunct2, THEN conjunct2, THEN conjunct2, THEN conjunct2, THEN conjunct1,
          THEN mp, OF conjI [OF disjI2 [OF e5a] e5b]])
  have "fst (extract_gene_info (Some ?s6)) = take 30 ''hypothetical protein''"
    by (rule T6 [THEN conjunct2, THEN conjunct2, THEN conjunct2, THEN conjunct2, THEN conjunct2,
          THEN conjunct1, THEN mp, OF conjI [OF disjI2 [OF e6a] conjI [OF e6b e6c]]])
  then have i6: "fst (extract_gene_info (Some ?s6)) = ''hypothetical protein''" by simp
  from a1 a2 a3 e b1 b2 b3 f c1 c2 c3 g d1 d2 d3 h e5a e5b i5 e6a e6b e6c i6
  show ?thesis by (intro conjI)
qed

text \<open>
  C3 as stated, with tokens cut at \<open>;\<close>, fails in two ways. In
  \<open>gene=Unknown;Name=thrL\<close> the \<open>gene=\<close> token is present with the value
  \<open>Unknown\<close>, yet the source returns the \<open>Name=\<close> value. In
  \<open>ID=g5;Alt_Name=yaaX;db_locus_tag=k12\<close> there is no \<open>gene=\<close>, \<open>Name=\<close>,
  \<open>product=\<close> or \<open>locus_tag=\<close> token, yet the source returns \<open>yaaX\<close> and \<open>k12\<close>.
\<close>

theorem token_grammar_counterexample:
  "spec_parse (Some ''gene=Unknown;Name=thrL'') = (''Unknown'', ''Unknown'')
   \<and> extract_gene_info (Some ''gene=Unknown;Name=thrL'') = (''thrL'', ''Unknown'')
   \<and> spec_parse (Some ''ID=g5;Alt_Name=yaaX;db_locus_tag=k12'') = (''Unknown'', ''Unknown'')
   \<and> extract_gene_info (Some ''ID=g5;Alt_Name=yaaX;db_locus_tag=k12'') = (''yaaX'', ''k12'')"
  by (simp add: extract_gene_info_def spec_parse_def token_value_def not_semi_def)

subsection \<open>Columns and frames\<close>

lemma as_numbers_Inr: "as_numbers vs = Inr xs \<Longrightarrow> vs = map Num xs"
proof (induction vs arbitrary: xs)
  case Nil then show ?case by simp
next
  case (Cons c cs)
  then show ?case by (cases c) (auto split: sum.splits)
qed

lemma as_numbers_map_Num: "as_numbers (map Num xs) = Inr xs"
  by (induction xs) auto

lemma as_numbers_map_Num_comp: "as_numbers (map (Num \<circ> g) xs) = Inr (map g xs)"
  by (induction xs) auto

lemma as_numbers_length: "as_numbers vs = Inr xs \<Longrightarrow> length xs = length vs"
  by (auto dest: as_numbers_Inr)

lemma map_of_assign:
  "map_of (assign name vs cs) n = (if n = name then Some vs else map_of cs n)"
  by (induction cs) auto

lemma getitem_setitem:
  "getitem (setitem f name vs) n = (if n = name then Inr vs else getitem f n)"
  by (simp add: getitem_def setitem_def map_of_assign)

lemma index_setitem: "index (setitem f name vs) = index f"
  by (simp add: setitem_def)

lemma nrows_setitem: "nrows (setitem f name vs) = nrows f"
  by (simp add: setitem_def nrows_def)

lemma assign_new: "name \<notin> fst ` set cs \<Longrightarrow> assign name vs cs = cs @ [(name, vs)]"
  by (induction cs) auto


lemma wf_setitem:
  "wf_frame f \<Longrightarrow> length vs = nrows f \<Longrightarrow> wf_frame (setitem f name vs)"
proof -
  have "list_all (\<lambda>c. length (snd c) = n) cs \<Longrightarrow> length vs = n
        \<Longrightarrow> list_all (\<lambda>c. length (snd c) = n) (assign name vs cs)" for n cs
    by (induction cs) auto
  then show "wf_frame f \<Longrightarrow> length vs = nrows f \<Longrightarrow> wf_frame (setitem f name vs)"
    by (simp add: wf_frame_def setitem_def nrows_def)
qed

lemma getitem_length:
  "wf_frame f \<Longrightarrow> getitem f name = Inr vs \<Longrightarrow> length vs = nrows f"
  by (auto simp: wf_frame_def getitem_def nrows_def list_all_iff split: option.splits dest!: map_of_SomeD)

lemma getitem_columns: "(\<exists>vs. getitem f name = Inr vs) = (name \<in> set (columns f))"
  by (auto simp: getitem_def columns_def map_of_eq_None_iff split: option.splits)
     (metis domIff dom_map_of_conv_image_fst image_eqI  option.distinct(1))+

lemma np_select_two_nth:
  "i < n \<Longrightarrow> length c1 = n \<Longrightarrow> length c2 = n \<Longrightarrow>
   np_select [c1, c2] [x1, x2] d n ! i = (if c1 ! i then x1 else if c2 ! i then x2 else d)"
  by simp

lemma np_select_two_length:
  "length c1 = n \<Longrightarrow> length c2 = n \<Longrightarrow> length (np_select [c1, c2] [x1, x2] d n) = n"
  by simp

subsection \<open>The classifier\<close>

lemma series_numeric:
  "series_lt (map Num xs) t = Inr (map (\<lambda>x. flt_lt x t) xs)"
  "series_ge (map Num xs) t = Inr (map (\<lambda>x. flt_ge x t) xs)"
  "series_le (map Num xs) t = Inr (map (\<lambda>x. flt_le x t) xs)"
  by (simp_all add: series_lt_def series_ge_def series_le_def as_numbers_map_Num)

lemma conditions_numeric:
  assumes "getitem f ''padj'' = Inr (map Num xs)" and "getitem f ''log2FoldChange'' = Inr (map Num ys)"
  shows "conditions f t u d =
           Inr [map2 (\<and>) (map (\<lambda>x. flt_lt x t) xs) (map (\<lambda>y. flt_ge y u) ys),
                map2 (\<and>) (map (\<lambda>x. flt_lt x t) xs) (map (\<lambda>y. flt_le y d) ys)]"
  using assms by (simp add: conditions_def up_condition_def down_condition_def series_numeric)

lemma conditions_Inr:
  assumes "conditions f t u d = Inr conds"
  shows "\<exists>xs ys. getitem f ''padj'' = Inr (map Num xs) \<and> getitem f ''log2FoldChange'' = Inr (map Num ys)"
proof -
  from assms obtain c1 where "up_condition f t u = Inr c1"
    by (auto simp: conditions_def split: sum.splits)
  then obtain p l xs ys where "getitem f ''padj'' = Inr p" "as_numbers p = Inr xs"
    "getitem f ''log2FoldChange'' = Inr l" "as_numbers l = Inr ys"
    by (auto simp: up_condition_def series_lt_def series_ge_def split: sum.splits)
  then show ?thesis by (auto dest: as_numbers_Inr)
qed

lemma replace_zero_numeric:
  "replace_zero v (map Num xs) = map Num (map (floor_zero v) xs)"
  by (simp add: replace_zero_def floor_zero_def)

lemma neg_log10_padj_numeric:
  assumes "getitem f ''padj'' = Inr (map Num xs)"
  shows "neg_log10_padj f = Inr (map (\<lambda>x. flt_neg (flt_log10 (floor_zero padj_floor x))) xs)"
  using assms
  by (simp add: neg_log10_padj_def np_log10_def replace_zero_numeric as_numbers_map_Num_comp)

lemma np_select_significance:
  assumes "length xs = n" and "length ys = n"
  shows "np_select [map2 (\<and>) (map (\<lambda>x. flt_lt x t) xs) (map (\<lambda>y. flt_ge y u) ys),
                    map2 (\<and>) (map (\<lambda>x. flt_lt x t) xs) (map (\<lambda>y. flt_le y d) ys)]
           choices ''Not Significant'' n
         = map2 (\<lambda>x y. significance_of x y t u d) xs ys"
  using assms by (intro nth_equalityI) (auto simp: choices_def significance_of_def)

lemma heap_new_nth: "(h @ [f]) ! length h = f"
  by simp

lemma filter_deseq_data_numeric:
  assumes df: "df < length (heap st)"
    and wf: "wf_frame (heap st ! df)"
    and p: "getitem (heap st ! df) ''padj'' = Inr (map Num xs)"
    and l: "getitem (heap st ! df) ''log2FoldChange'' = Inr (map Num ys)"
  shows "filter_deseq_data st df t u d =
           (Inr (length (heap st)), st\<lparr>heap := heap st @ [annotate (heap st ! df) xs ys t u d]\<rparr>)"
proof -
  let ?f = "heap st ! df"
  have lx: "length xs = nrows ?f" using getitem_length [OF wf p] by simp
  have ly: "length ys = nrows ?f" using getitem_length [OF wf l] by simp
  have c: "conditions ?f t u d =
           Inr [map2 (\<and>) (map (\<lambda>x. flt_lt x t) xs) (map (\<lambda>y. flt_ge y u) ys),
                map2 (\<and>) (map (\<lambda>x. flt_lt x t) xs) (map (\<lambda>y. flt_le y d) ys)]"
    by (rule conditions_numeric [OF p l])
  have s: "np_select [map2 (\<and>) (map (\<lambda>x. flt_lt x t) xs) (map (\<lambda>y. flt_ge y u) ys),
                    map2 (\<and>) (map (\<lambda>x. flt_lt x t) xs) (map (\<lambda>y. flt_le y d) ys)]
           choices ''Not Significant'' (nrows ?f)
         = map2 (\<lambda>x y. significance_of x y t u d) xs ys"
    by (rule np_select_significance [OF lx ly])
  have p': "getitem (setitem ?f ''Significance'' vs) ''padj'' = Inr (map Num xs)" for vs
    using p by (simp add: getitem_setitem)
  show ?thesis
    unfolding filter_deseq_data_def df_copy_def new_frame_def df_setitem_def
    by (simp add: c s neg_log10_padj_numeric [OF p'] annotate_def)
qed

lemma filter_deseq_data_Inr:
  assumes "filter_deseq_data st df t u d = (Inr r, st')"
  shows "\<exists>xs ys. getitem (heap st ! df) ''padj'' = Inr (map Num xs)
                \<and> getitem (heap st ! df) ''log2FoldChange'' = Inr (map Num ys)"
proof -
  from assms obtain conds where "conditions (heap st ! df) t u d = Inr conds"
    unfolding filter_deseq_data_def df_copy_def new_frame_def
    by (auto split: sum.splits simp: Let_def)
  then show ?thesis by (rule conditions_Inr)
qed

lemma filter_deseq_data_Inl:
  assumes "filter_deseq_data st df t u d = (Inl e, st')"
  shows "st' = st\<lparr>heap := heap st @ [heap st ! df]\<rparr> \<and> conditions (heap st ! df) t u d = Inl e"
proof (cases "conditions (heap st ! df) t u d")
  case (Inl e')
  with assms show ?thesis
    unfolding filter_deseq_data_def df_copy_def new_frame_def by simp
next
  case (Inr conds)
  then obtain xs ys where p: "getitem (heap st ! df) ''padj'' = Inr (map Num xs)"
    and l: "getitem (heap st ! df) ''log2FoldChange'' = Inr (map Num ys)"
    using conditions_Inr by blast
  have p': "getitem (setitem (heap st ! df) ''Significance'' vs) ''padj'' = Inr (map Num xs)" for vs
    using p by (simp add: getitem_setitem)
  from assms Inr show ?thesis
    unfolding filter_deseq_data_def df_copy_def new_frame_def df_setitem_def
    by (simp add: neg_log10_padj_numeric [OF p'])
qed

lemma getitem_annotate:
  "getitem (annotate f xs ys t u d) name =
     (if name = ''-log10(padj)''
      then Inr (map Num (map (\<lambda>x. flt_neg (flt_log10 (floor_zero padj_floor x))) xs))
      else if name = ''Significance''
      then Inr (map Str (map2 (\<lambda>x y. significance_of x y t u d) xs ys))
      else getitem f name)"
  by (simp add: annotate_def getitem_setitem)

lemma nrows_annotate: "nrows (annotate f xs ys t u d) = nrows f"
  by (simp add: annotate_def nrows_setitem)

lemma index_annotate: "index (annotate f xs ys t u d) = index f"
  by (simp add: annotate_def index_setitem)

lemma filter_deseq_data_result:
  assumes run: "filter_deseq_data st df t u d = (Inr r, st')"
    and df: "df < length (heap st)"
    and wf: "wf_frame (heap st ! df)"
  shows "\<exists>xs ys. getitem (heap st ! df) ''padj'' = Inr (map Num xs)
           \<and> getitem (heap st ! df) ''log2FoldChange'' = Inr (map Num ys)
           \<and> length xs = nrows (heap st ! df) \<and> length ys = nrows (heap st ! df)
           \<and> r = length (heap st)
           \<and> st' = st\<lparr>heap := heap st @ [annotate (heap st ! df) xs ys t u d]\<rparr>"
proof -
  from filter_deseq_data_Inr [OF run] obtain xs ys
    where p: "getitem (heap st ! df) ''padj'' = Inr (map Num xs)"
      and l: "getitem (heap st ! df) ''log2FoldChange'' = Inr (map Num ys)" by blast
  have lx: "length xs = nrows (heap st ! df)" using getitem_length [OF wf p] by simp
  have ly: "length ys = nrows (heap st ! df)" using getitem_length [OF wf l] by simp
  from filter_deseq_data_numeric [OF df wf p l, of t u d] run
  have "r = length (heap st)" "st' = st\<lparr>heap := heap st @ [annotate (heap st ! df) xs ys t u d]\<rparr>"
    by simp_all
  with p l lx ly show ?thesis by blast
qed

text \<open>
  C1. In the table that \<open>filter_deseq_data\<close> returns, the \<open>padj\<close> and
  \<open>log2FoldChange\<close> columns are numeric and, for every row, \<open>Significance\<close> is
  \<open>Upregulated\<close> if and only if \<open>padj < padj_threshold\<close> and
  \<open>log2FoldChange \<ge> log2fc_up\<close>; otherwise it is \<open>Downregulated\<close> if and only if
  \<open>padj < padj_threshold\<close> and \<open>log2FoldChange \<le> log2fc_down\<close>; every other row
  is \<open>Not Significant\<close> (the label the source writes for the category
  NotSignificant). A \<open>padj\<close> equal to the threshold gives \<open>Not Significant\<close>, a
  \<open>log2FoldChange\<close> equal to \<open>log2fc_up\<close> gives \<open>Upregulated\<close> when \<open>padj\<close> is below
  its threshold, and a row that meets both conditions is \<open>Upregulated\<close>. The
  comparisons are those of floats, false on \<open>NaN\<close>.
\<close>

theorem significance_classification:
  assumes run: "filter_deseq_data st df padj_threshold log2fc_up log2fc_down = (Inr r, st')"
    and df: "df < length (heap st)"
    and wf: "wf_frame (heap st ! df)"
  shows "\<exists>p l s.
           getitem (heap st' ! r) ''padj'' = Inr (map Num p)
         \<and> getitem (heap st' ! r) ''log2FoldChange'' = Inr (map Num l)
         \<and> getitem (heap st' ! r) ''Significance'' = Inr (map Str s)
         \<and> length p = nrows (heap st' ! r) \<and> length l = nrows (heap st' ! r)
         \<and> length s = nrows (heap st' ! r)
         \<and> (\<forall>i < nrows (heap st' ! r).
               (s ! i = ''Upregulated'' \<longleftrightarrow>
                  flt_lt (p ! i) padj_threshold \<and> flt_ge (l ! i) log2fc_up)
             \<and> (s ! i = ''Downregulated'' \<longleftrightarrow>
                  \<not> (flt_lt (p ! i) padj_threshold \<and> flt_ge (l ! i) log2fc_up)
                  \<and> flt_lt (p ! i) padj_threshold \<and> flt_le (l ! i) log2fc_down)
             \<and> (s ! i = ''Not Significant'' \<longleftrightarrow>
                  \<not> (flt_lt (p ! i) padj_threshold \<and> flt_ge (l ! i) log2fc_up)
                  \<and> \<not> (flt_lt (p ! i) padj_threshold \<and> flt_le (l ! i) log2fc_down))
             \<and> (p ! i = padj_threshold \<longrightarrow> s ! i = ''Not Significant'')
             \<and> (flt_lt (p ! i) padj_threshold \<and> l ! i = log2fc_up \<and> log2fc_up \<noteq> NaN
                  \<longrightarrow> s ! i = ''Upregulated'')
             \<and> (flt_lt (p ! i) padj_threshold \<and> flt_ge (l ! i) log2fc_up \<and> flt_le (l ! i) log2fc_down
                  \<longrightarrow> s ! i = ''Upregulated''))"
proof -
  let ?f = "heap st ! df"
  from filter_deseq_data_result [OF run df wf] obtain xs ys
    where p: "getitem ?f ''padj'' = Inr (map Num xs)"
      and l: "getitem ?f ''log2FoldChange'' = Inr (map Num ys)"
      and lx: "length xs = nrows ?f" and ly: "length ys = nrows ?f"
      and r: "r = length (heap st)"
      and st': "st' = st\<lparr>heap := heap st @ [annotate ?f xs ys padj_threshold log2fc_up log2fc_down]\<rparr>"
    by blast
  let ?s = "map2 (\<lambda>x y. significance_of x y padj_threshold log2fc_up log2fc_down) xs ys"
  have g: "heap st' ! r = annotate ?f xs ys padj_threshold log2fc_up log2fc_down"
    using r st' by simp
  have n: "nrows (heap st' ! r) = nrows ?f" by (simp add: g nrows_annotate)
  have lt_irrefl: "\<not> flt_lt a a" for a by (cases a) auto
  have ge_refl: "a \<noteq> NaN \<Longrightarrow> flt_ge a a" for a by (cases a) (auto simp: flt_ge_def)
  have row: "?s ! i = significance_of (xs ! i) (ys ! i) padj_threshold log2fc_up log2fc_down"
    if "i < nrows ?f" for i
    using that lx ly by simp
  have "getitem (heap st' ! r) ''padj'' = Inr (map Num xs)"
    using p by (simp add: g getitem_annotate)
  moreover have "getitem (heap st' ! r) ''log2FoldChange'' = Inr (map Num ys)"
    using l by (simp add: g getitem_annotate)
  moreover have "getitem (heap st' ! r) ''Significance'' = Inr (map Str ?s)"
    by (simp add: g getitem_annotate)
  moreover have "length ?s = nrows (heap st' ! r)" using lx ly n by simp
  moreover have "\<forall>i < nrows (heap st' ! r).
               (?s ! i = ''Upregulated'' \<longleftrightarrow>
                  flt_lt (xs ! i) padj_threshold \<and> flt_ge (ys ! i) log2fc_up)
             \<and> (?s ! i = ''Downregulated'' \<longleftrightarrow>
                  \<not> (flt_lt (xs ! i) padj_threshold \<and> flt_ge (ys ! i) log2fc_up)
                  \<and> flt_lt (xs ! i) padj_threshold \<and> flt_le (ys ! i) log2fc_down)
             \<and> (?s ! i = ''Not Significant'' \<longleftrightarrow>
                  \<not> (flt_lt (xs ! i) padj_threshold \<and> flt_ge (ys ! i) log2fc_up)
                  \<and> \<not> (flt_lt (xs ! i) padj_threshold \<and> flt_le (ys ! i) log2fc_down))
             \<and> (xs ! i = padj_threshold \<longrightarrow> ?s ! i = ''Not Significant'')
             \<and> (flt_lt (xs ! i) padj_threshold \<and> ys ! i = log2fc_up \<and> log2fc_up \<noteq> NaN
                  \<longrightarrow> ?s ! i = ''Upregulated'')
             \<and> (flt_lt (xs ! i) padj_threshold \<and> flt_ge (ys ! i) log2fc_up \<and> flt_le (ys ! i) log2fc_down
                  \<longrightarrow> ?s ! i = ''Upregulated'')"
  proof (intro allI impI)
    fix i assume "i < nrows (heap st' ! r)"
    then have i: "i < nrows ?f" using n by simp
    show "(?s ! i = ''Upregulated'' \<longleftrightarrow>
                  flt_lt (xs ! i) padj_threshold \<and> flt_ge (ys ! i) log2fc_up)
             \<and> (?s ! i = ''Downregulated'' \<longleftrightarrow>
                  \<not> (flt_lt (xs ! i) padj_threshold \<and> flt_ge (ys ! i) log2fc_up)
                  \<and> flt_lt (xs ! i) padj_threshold \<and> flt_le (ys ! i) log2fc_down)
             \<and> (?s ! i = ''Not Significant'' \<longleftrightarrow>
                  \<not> (flt_lt (xs ! i) padj_threshold \<and> flt_ge (ys ! i) log2fc_up)
                  \<and> \<not> (flt_lt (xs ! i) padj_threshold \<and> flt_le (ys ! i) log2fc_down))
             \<and> (xs ! i = padj_threshold \<longrightarrow> ?s ! i = ''Not Significant'')
             \<and> (flt_lt (xs ! i) padj_threshold \<and> ys ! i = log2fc_up \<and> log2fc_up \<noteq> NaN
                  \<longrightarrow> ?s ! i = ''Upregulated'')
             \<and> (flt_lt (xs ! i) padj_threshold \<and> flt_ge (ys ! i) log2fc_up \<and> flt_le (ys ! i) log2fc_down
                  \<longrightarrow> ?s ! i = ''Upregulated'')"
      using lt_irrefl [of padj_threshold] ge_refl [of log2fc_up]
      by (simp only: row [OF i]) (auto simp: significance_of_def)
  qed
  moreover have "length xs = nrows (heap st' ! r)" "length ys = nrows (heap st' ! r)"
    using lx ly n by simp_all
  ultimately show ?thesis by blast
qed

lemma example_run:
  "filter_deseq_data example_session 0 (Finite (1 / 20)) (Finite 1) (Finite (- 1)) =
     (Inr 1, example_session\<lparr>heap := [example_frame,
        annotate example_frame [Finite (1 / 1000), Finite (1 / 10000), Finite (1 / 5), Finite 0]
          [Finite (5 / 2), Finite (- 3), Finite (1 / 5), Finite 1] (Finite (1 / 20)) (Finite 1) (Finite (- 1))]\<rparr>)"
proof -
  have 1: "0 < length (heap example_session)" by (simp add: example_session_def)
  have f: "heap example_session ! 0 = example_frame" by (simp add: example_session_def)
  have 2: "wf_frame (heap example_session ! 0)" by (simp add: f example_frame_def wf_frame_def)
  have 3: "getitem (heap example_session ! 0) ''padj'' =
             Inr (map Num [Finite (1 / 1000), Finite (1 / 10000), Finite (1 / 5), Finite 0])"
    by (simp add: f example_frame_def getitem_def)
  have 4: "getitem (heap example_session ! 0) ''log2FoldChange'' =
             Inr (map Num [Finite (5 / 2), Finite (- 3), Finite (1 / 5), Finite 1])"
    by (simp add: f example_frame_def getitem_def)
  show ?thesis
    using filter_deseq_data_numeric [OF 1 2 3 4, of "Finite (1 / 20)" "Finite 1" "Finite (- 1)"]
    by (simp add: f) (simp add: example_session_def)
qed

text \<open>
  The instance of C1 on the example rows of the specification, with the thresholds
  0.05, 1 and -1: the rows (0.001, 2.5), (0.0001, -3), (0.2, 0.2) and (0, 1) are
  labelled in this order.
\<close>

theorem significance_classification_witness:
  "filter_deseq_data example_session 0 (Finite (1 / 20)) (Finite 1) (Finite (- 1))
     = (Inr 1, snd (filter_deseq_data example_session 0 (Finite (1 / 20)) (Finite 1) (Finite (- 1))))
   \<and> 0 < length (heap example_session)
   \<and> wf_frame (heap example_session ! 0)
   \<and> getitem (heap (snd (filter_deseq_data example_session 0 (Finite (1 / 20)) (Finite 1) (Finite (- 1)))) ! 1)
        ''Significance'' = Inr [Str ''Upregulated'', Str ''Downregulated'', Str ''Not Significant'', Str ''Upregulated'']"
proof -
  let ?st' = "snd (filter_deseq_data example_session 0 (Finite (1 / 20)) (Finite 1) (Finite (- 1)))"
  have 0: "filter_deseq_data example_session 0 (Finite (1 / 20)) (Finite 1) (Finite (- 1)) = (Inr 1, ?st')"
    by (simp add: example_run)
  have 1: "0 < length (heap example_session)" by (simp add: example_session_def)
  have 2: "wf_frame (heap example_session ! 0)"
    by (simp add: example_session_def example_frame_def wf_frame_def)
  have n: "nrows (heap ?st' ! 1) = 4"
    by (simp add: example_run nrows_annotate) (simp add: nrows_def example_frame_def)
  have pcol: "getitem (heap ?st' ! 1) ''padj''
                = Inr (map Num [Finite (1 / 1000), Finite (1 / 10000), Finite (1 / 5), Finite 0])"
    by (simp add: example_run getitem_annotate) (simp add: getitem_def example_frame_def)
  have lcol: "getitem (heap ?st' ! 1) ''log2FoldChange''
                = Inr (map Num [Finite (5 / 2), Finite (- 3), Finite (1 / 5), Finite 1])"
    by (simp add: example_run getitem_annotate) (simp add: getitem_def example_frame_def)
  from significance_classification [OF 0 1 2] obtain p l s where H:
         "getitem (heap ?st' ! 1) ''padj'' = Inr (map Num p)
         \<and> getitem (heap ?st' ! 1) ''log2FoldChange'' = Inr (map Num l)
         \<and> getitem (heap ?st' ! 1) ''Significance'' = Inr (map Str s)
         \<and> length p = nrows (heap ?st' ! 1) \<and> length l = nrows (heap ?st' ! 1)
         \<and> length s = nrows (heap ?st' ! 1)
         \<and> (\<forall>i < nrows (heap ?st' ! 1).
               (s ! i = ''Upregulated'' \<longleftrightarrow>
                  flt_lt (p ! i) (Finite (1 / 20)) \<and> flt_ge (l ! i) (Finite 1))
             \<and> (s ! i = ''Downregulated'' \<longleftrightarrow>
                  \<not> (flt_lt (p ! i) (Finite (1 / 20)) \<and> flt_ge (l ! i) (Finite 1))
                  \<and> flt_lt (p ! i) (Finite (1 / 20)) \<and> flt_le (l ! i) (Finite (- 1)))
             \<and> (s ! i = ''Not Significant'' \<longleftrightarrow>
                  \<not> (flt_lt (p ! i) (Finite (1 / 20)) \<and> flt_ge (l ! i) (Finite 1))
                  \<and> \<not> (flt_lt (p ! i) (Finite (1 / 20)) \<and> flt_le (l ! i) (Finite (- 1))))
             \<and> (p ! i = Finite (1 / 20) \<longrightarrow> s ! i = ''Not Significant'')
             \<and> (flt_lt (p ! i) (Finite (1 / 20)) \<and> l ! i = Finite 1 \<and> Finite 1 \<noteq> NaN
                  \<longrightarrow> s ! i = ''Upregulated'')
             \<and> (flt_lt (p ! i) (Finite (1 / 20)) \<and> flt_ge (l ! i) (Finite 1) \<and> flt_le (l ! i) (Finite (- 1))
                  \<longrightarrow> s ! i = ''Upregulated''))"
    by (elim exE)
  from H have p: "getitem (heap ?st' ! 1) ''padj'' = Inr (map Num p)"
    and l: "getitem (heap ?st' ! 1) ''log2FoldChange'' = Inr (map Num l)"
    and s: "getitem (heap ?st' ! 1) ''Significance'' = Inr (map Str s)"
    and len: "length s = nrows (heap ?st' ! 1)" by simp_all
  from H have rows: "\<And>i. i < nrows (heap ?st' ! 1) \<Longrightarrow>
               (s ! i = ''Upregulated'' \<longleftrightarrow>
                  flt_lt (p ! i) (Finite (1 / 20)) \<and> flt_ge (l ! i) (Finite 1))
             \<and> (s ! i = ''Downregulated'' \<longleftrightarrow>
                  \<not> (flt_lt (p ! i) (Finite (1 / 20)) \<and> flt_ge (l ! i) (Finite 1))
                  \<and> flt_lt (p ! i) (Finite (1 / 20)) \<and> flt_le (l ! i) (Finite (- 1)))
             \<and> (s ! i = ''Not Significant'' \<longleftrightarrow>
                  \<not> (flt_lt (p ! i) (Finite (1 / 20)) \<and> flt_ge (l ! i) (Finite 1))
                  \<and> \<not> (flt_lt (p ! i) (Finite (1 / 20)) \<and> flt_le (l ! i) (Finite (- 1))))"
    by simp
  from p pcol have pe: "p = [Finite (1 / 1000), Finite (1 / 10000), Finite (1 / 5), Finite 0]"
    by (simp add: map_eq_Cons_conv) 
  from l lcol have le: "l = [Finite (5 / 2), Finite (- 3), Finite (1 / 5), Finite 1]"
    by (simp add: map_eq_Cons_conv)
  from rows [of 0] rows [of 1] rows [of 2] rows [of 3] n
  have r0: "s ! 0 = ''Upregulated''" and r1: "s ! 1 = ''Downregulated''"
    and r2: "s ! 2 = ''Not Significant''" and r3: "s ! 3 = ''Upregulated''"
    by (simp_all add: pe le flt_ge_def)
  from len n have "length s = Suc (Suc (Suc (Suc 0)))" by simp
  then obtain a b c e where "s = [a, b, c, e]"
    by (auto simp: length_Suc_conv)
  with r0 r1 r2 r3
  have "s = [''Upregulated'', ''Downregulated'', ''Not Significant'', ''Upregulated'']" by simp
  with s 0 1 2 show ?thesis by simp
qed

lemma log10_inverse_power: "log 10 (1 / 10 ^ n) = - real n"
  by (simp add: log_divide)

lemma inverse_power_mono: "m \<le> n \<Longrightarrow> (1::real) / 10 ^ n \<le> 1 / 10 ^ m"
  by (intro frac_le power_increasing) simp_all

lemma padj_floor_pos: "0 < padj_floor"
  by (simp add: padj_floor_def)

lemma log10_padj_floor: "log 10 padj_floor = - 300"
  unfolding padj_floor_def using log10_inverse_power [of 300] by simp

lemma neg_log10_floor_zero:
  "flt_neg (flt_log10 (floor_zero padj_floor (Finite x))) =
     (if x = 0 then Finite 300 else if 0 < x then Finite (- log 10 x) else NaN)"
  by (simp add: floor_zero_def padj_floor_pos log10_padj_floor)

text \<open>
  C2, as the source has it. The column \<open>-log10(padj)\<close> of the returned table holds,
  for every row, \<open>-log10\<close> of \<open>padj\<close> after an exact zero has been replaced by
  \<open>1e-300\<close>. So a \<open>padj\<close> of zero gives exactly 300, neither infinite nor an
  error; for a \<open>padj\<close> that is zero or at least \<open>1e-300\<close> the value is
  \<open>-log10(max(padj, 1e-300))\<close>; and every positive \<open>padj\<close>, also one below
  \<open>1e-300\<close>, gives \<open>-log10(padj)\<close> with no floor applied.
\<close>

theorem neg_log10_padj_values:
  assumes run: "filter_deseq_data st df padj_threshold log2fc_up log2fc_down = (Inr r, st')"
    and df: "df < length (heap st)"
    and wf: "wf_frame (heap st ! df)"
  shows "\<exists>p y.
           getitem (heap st' ! r) ''padj'' = Inr (map Num p)
         \<and> getitem (heap st' ! r) ''-log10(padj)'' = Inr (map Num y)
         \<and> length p = nrows (heap st' ! r) \<and> length y = nrows (heap st' ! r)
         \<and> (\<forall>i < nrows (heap st' ! r).
               y ! i = flt_neg (flt_log10 (if p ! i = Finite 0 then Finite padj_floor else p ! i))
             \<and> (p ! i = Finite 0 \<longrightarrow> y ! i = Finite 300)
             \<and> (\<forall>x. p ! i = Finite x \<and> (x = 0 \<or> padj_floor \<le> x)
                    \<longrightarrow> y ! i = Finite (- log 10 (max x padj_floor)))
             \<and> (\<forall>x. p ! i = Finite x \<and> 0 < x \<longrightarrow> y ! i = Finite (- log 10 x)))"
proof -
  let ?f = "heap st ! df"
  from filter_deseq_data_result [OF run df wf] obtain xs ys
    where p: "getitem ?f ''padj'' = Inr (map Num xs)"
      and lx: "length xs = nrows ?f"
      and r: "r = length (heap st)"
      and st': "st' = st\<lparr>heap := heap st @ [annotate ?f xs ys padj_threshold log2fc_up log2fc_down]\<rparr>"
    by blast
  let ?y = "map (\<lambda>x. flt_neg (flt_log10 (floor_zero padj_floor x))) xs"
  have g: "heap st' ! r = annotate ?f xs ys padj_threshold log2fc_up log2fc_down"
    using r st' by simp
  have n: "nrows (heap st' ! r) = nrows ?f" by (simp add: g nrows_annotate)
  have pos: "(0::real) < padj_floor" by (rule padj_floor_pos)
  have "getitem (heap st' ! r) ''padj'' = Inr (map Num xs)"
    using p by (simp add: g getitem_annotate)
  moreover have "getitem (heap st' ! r) ''-log10(padj)'' = Inr (map Num ?y)"
    by (simp add: g getitem_annotate)
  moreover have "length xs = nrows (heap st' ! r)" "length ?y = nrows (heap st' ! r)"
    using lx n by simp_all
  moreover have "\<forall>i < nrows (heap st' ! r).
               ?y ! i = flt_neg (flt_log10 (if xs ! i = Finite 0 then Finite padj_floor else xs ! i))
             \<and> (xs ! i = Finite 0 \<longrightarrow> ?y ! i = Finite 300)
             \<and> (\<forall>x. xs ! i = Finite x \<and> (x = 0 \<or> padj_floor \<le> x)
                    \<longrightarrow> ?y ! i = Finite (- log 10 (max x padj_floor)))
             \<and> (\<forall>x. xs ! i = Finite x \<and> 0 < x \<longrightarrow> ?y ! i = Finite (- log 10 x))"
  proof (intro allI impI)
    fix i assume "i < nrows (heap st' ! r)"
    then have i: "i < length xs" using n lx by simp
    have e: "?y ! i = flt_neg (flt_log10 (floor_zero padj_floor (xs ! i)))"
      using i by simp
    have a: "?y ! i = flt_neg (flt_log10 (if xs ! i = Finite 0 then Finite padj_floor else xs ! i))"
      by (subst e) (simp only: floor_zero_def)
    have b: "xs ! i = Finite 0 \<longrightarrow> ?y ! i = Finite 300"
      unfolding e by (auto simp: neg_log10_floor_zero)
    have c: "\<forall>x. xs ! i = Finite x \<and> 0 < x \<longrightarrow> ?y ! i = Finite (- log 10 x)"
      unfolding e by (auto simp: neg_log10_floor_zero)
    have d: "\<forall>x. xs ! i = Finite x \<and> (x = 0 \<or> padj_floor \<le> x)
                    \<longrightarrow> ?y ! i = Finite (- log 10 (max x padj_floor))"
    proof (intro allI impI)
      fix x assume x: "xs ! i = Finite x \<and> (x = 0 \<or> padj_floor \<le> x)"
      show "?y ! i = Finite (- log 10 (max x padj_floor))"
      proof (cases "x = 0")
        case True
        have "max (0::real) padj_floor = padj_floor" using pos by (simp only: max_def) simp
        with True x show ?thesis
          unfolding e by (simp add: neg_log10_floor_zero log10_padj_floor)
      next
        case False
        with x have le: "padj_floor \<le> x" by blast
        with pos have "0 < x" by linarith
        moreover from le have "max x padj_floor = x" by (simp only: max_def) simp
        ultimately show ?thesis using x False
          unfolding e by (simp add: neg_log10_floor_zero)
      qed
    qed
    from a b c d
    show "?y ! i = flt_neg (flt_log10 (if xs ! i = Finite 0 then Finite padj_floor else xs ! i))
             \<and> (xs ! i = Finite 0 \<longrightarrow> ?y ! i = Finite 300)
             \<and> (\<forall>x. xs ! i = Finite x \<and> (x = 0 \<or> padj_floor \<le> x)
                    \<longrightarrow> ?y ! i = Finite (- log 10 (max x padj_floor)))
             \<and> (\<forall>x. xs ! i = Finite x \<and> 0 < x \<longrightarrow> ?y ! i = Finite (- log 10 x))"
      by (intro conjI)
  qed
  ultimately show ?thesis by blast
qed

lemma tiny_padj_pos: "0 < tiny_padj"
  by (simp add: tiny_padj_def)

lemma log10_tiny_padj: "log 10 tiny_padj = - 305"
  unfolding tiny_padj_def using log10_inverse_power [of 305] by simp

lemma tiny_padj_below_floor: "tiny_padj \<le> padj_floor"
  unfolding tiny_padj_def padj_floor_def by (rule inverse_power_mono) simp

text \<open>
  The instance of C2 on the example table: its fourth row has \<open>padj = 0\<close> and
  gets 300.
\<close>

theorem neg_log10_padj_values_witness:
  "filter_deseq_data example_session 0 (Finite (1 / 20)) (Finite 1) (Finite (- 1))
     = (Inr 1, snd (filter_deseq_data example_session 0 (Finite (1 / 20)) (Finite 1) (Finite (- 1))))
   \<and> 0 < length (heap example_session)
   \<and> wf_frame (heap example_session ! 0)
   \<and> (\<exists>y. getitem (heap (snd (filter_deseq_data example_session 0 (Finite (1 / 20)) (Finite 1) (Finite (- 1)))) ! 1)
              ''-log10(padj)'' = Inr (map Num y)
          \<and> y ! 3 = Finite 300)"
proof -
  let ?st' = "snd (filter_deseq_data example_session 0 (Finite (1 / 20)) (Finite 1) (Finite (- 1)))"
  have 0: "filter_deseq_data example_session 0 (Finite (1 / 20)) (Finite 1) (Finite (- 1)) = (Inr 1, ?st')"
    by (simp add: example_run)
  have 1: "0 < length (heap example_session)" by (simp add: example_session_def)
  have 2: "wf_frame (heap example_session ! 0)"
    by (simp add: example_session_def example_frame_def wf_frame_def)
  have n: "nrows (heap ?st' ! 1) = 4"
    by (simp add: example_run nrows_annotate) (simp add: nrows_def example_frame_def)
  have pcol: "getitem (heap ?st' ! 1) ''padj''
                = Inr (map Num [Finite (1 / 1000), Finite (1 / 10000), Finite (1 / 5), Finite 0])"
    by (simp add: example_run getitem_annotate) (simp add: getitem_def example_frame_def)
  from neg_log10_padj_values [OF 0 1 2] obtain p y where H:
    "getitem (heap ?st' ! 1) ''padj'' = Inr (map Num p)
         \<and> getitem (heap ?st' ! 1) ''-log10(padj)'' = Inr (map Num y)
         \<and> length p = nrows (heap ?st' ! 1) \<and> length y = nrows (heap ?st' ! 1)
         \<and> (\<forall>i < nrows (heap ?st' ! 1).
               y ! i = flt_neg (flt_log10 (if p ! i = Finite 0 then Finite padj_floor else p ! i))
             \<and> (p ! i = Finite 0 \<longrightarrow> y ! i = Finite 300)
             \<and> (\<forall>x. p ! i = Finite x \<and> (x = 0 \<or> padj_floor \<le> x)
                    \<longrightarrow> y ! i = Finite (- log 10 (max x padj_floor)))
             \<and> (\<forall>x. p ! i = Finite x \<and> 0 < x \<longrightarrow> y ! i = Finite (- log 10 x)))"
    by (elim exE)
  from H have p: "getitem (heap ?st' ! 1) ''padj'' = Inr (map Num p)"
    and y: "getitem (heap ?st' ! 1) ''-log10(padj)'' = Inr (map Num y)" by simp_all
  from H have R: "\<forall>i < nrows (heap ?st' ! 1).
               y ! i = flt_neg (flt_log10 (if p ! i = Finite 0 then Finite padj_floor else p ! i))
             \<and> (p ! i = Finite 0 \<longrightarrow> y ! i = Finite 300)
             \<and> (\<forall>x. p ! i = Finite x \<and> (x = 0 \<or> padj_floor \<le> x)
                    \<longrightarrow> y ! i = Finite (- log 10 (max x padj_floor)))
             \<and> (\<forall>x. p ! i = Finite x \<and> 0 < x \<longrightarrow> y ! i = Finite (- log 10 x))"
    by (elim conjE)
  have lt: "3 < nrows (heap ?st' ! 1)" using n by simp
  have row: "p ! 3 = Finite 0 \<longrightarrow> y ! 3 = Finite 300"
    using R [rule_format, OF lt] by (elim conjE)
  from p pcol have pe: "p = [Finite (1 / 1000), Finite (1 / 10000), Finite (1 / 5), Finite 0]"
    by (simp add: map_eq_Cons_conv)
  from row have "y ! 3 = Finite 300" by (simp add: pe)
  with y 0 1 2 show ?thesis by blast
qed

lemma tiny_padj_run:
  "filter_deseq_data tiny_padj_session 0 (Finite (1 / 20)) (Finite 1) (Finite (- 1)) =
     (Inr 1, tiny_padj_session\<lparr>heap := [tiny_padj_frame,
        annotate tiny_padj_frame [Finite tiny_padj] [Finite 2] (Finite (1 / 20)) (Finite 1) (Finite (- 1))]\<rparr>)"
proof -
  have 1: "0 < length (heap tiny_padj_session)" by (simp add: tiny_padj_session_def)
  have f: "heap tiny_padj_session ! 0 = tiny_padj_frame" by (simp add: tiny_padj_session_def)
  have 2: "wf_frame (heap tiny_padj_session ! 0)" by (simp add: f tiny_padj_frame_def wf_frame_def)
  have 3: "getitem (heap tiny_padj_session ! 0) ''padj'' = Inr (map Num [Finite tiny_padj])"
    by (simp add: f tiny_padj_frame_def getitem_def)
  have 4: "getitem (heap tiny_padj_session ! 0) ''log2FoldChange'' = Inr (map Num [Finite 2])"
    by (simp add: f tiny_padj_frame_def getitem_def)
  show ?thesis
    using filter_deseq_data_numeric [OF 1 2 3 4, of "Finite (1 / 20)" "Finite 1" "Finite (- 1)"]
    by (simp add: f) (simp add: tiny_padj_session_def)
qed

text \<open>
  C2 as stated fails for a positive \<open>padj\<close> below \<open>1e-300\<close>: for \<open>padj = 1e-305\<close>
  the source writes 305, while \<open>-log10(max(padj, 1e-300))\<close> is 300. Only the
  exact zero is replaced (\<open>replace(0, 1e-300)\<close>).
\<close>

theorem neg_log10_max_counterexample:
  "getitem (heap (snd (filter_deseq_data tiny_padj_session 0 (Finite (1 / 20)) (Finite 1) (Finite (- 1)))) ! 1)
     ''-log10(padj)'' = Inr [Num (Finite 305)]
   \<and> Finite (- log 10 (max tiny_padj padj_floor)) = Finite 300"
proof -
  have "max tiny_padj padj_floor = padj_floor"
    using tiny_padj_below_floor by (simp only: max_def) simp
  then have b: "Finite (- log 10 (max tiny_padj padj_floor)) = Finite 300"
    by (simp add: log10_padj_floor)
  have "tiny_padj \<noteq> 0" using tiny_padj_pos by simp
  then have "flt_neg (flt_log10 (floor_zero padj_floor (Finite tiny_padj))) = Finite 305"
    using tiny_padj_pos by (simp add: neg_log10_floor_zero log10_tiny_padj)
  then have a: "getitem (heap (snd (filter_deseq_data tiny_padj_session 0 (Finite (1 / 20)) (Finite 1) (Finite (- 1)))) ! 1)
     ''-log10(padj)'' = Inr [Num (Finite 305)]"
    by (simp add: tiny_padj_run getitem_annotate)
  from a b show ?thesis by (rule conjI)
qed

lemma cols_annotate:
  "cols (annotate f xs ys t u d) =
     assign ''-log10(padj)'' (map Num (map (\<lambda>x. flt_neg (flt_log10 (floor_zero padj_floor x))) xs))
       (assign ''Significance'' (map Str (map2 (\<lambda>x y. significance_of x y t u d) xs ys)) (cols f))"
  by (simp add: annotate_def setitem_def)

lemma columns_image: "set (columns f) = fst ` set (cols f)"
  by (simp add: columns_def)

text \<open>
  C5, as the source has it. Whatever the outcome, \<open>filter_deseq_data\<close> leaves
  every frame that existed before the call, the input among them, as it was, and
  shows no warning. When it returns, the result is a new frame with the row
  labels of the input in which every column other than \<open>Significance\<close> and
  \<open>-log10(padj)\<close> is the input's; these two are assigned, in this order. When
  the input has no column of either name, the result is the input's columns
  followed by exactly these two; a column of the input that already has one of
  the two names is overwritten in its place.
\<close>

theorem filter_deseq_data_frame_effect:
  assumes run: "filter_deseq_data st df padj_threshold log2fc_up log2fc_down = (res, st')"
    and df: "df < length (heap st)"
    and wf: "wf_frame (heap st ! df)"
  shows "take (length (heap st)) (heap st') = heap st
       \<and> heap st' ! df = heap st ! df
       \<and> warnings st' = warnings st
       \<and> (\<forall>r. res = Inr r \<longrightarrow>
             r = length (heap st) \<and> length (heap st') = Suc (length (heap st))
           \<and> index (heap st' ! r) = index (heap st ! df)
           \<and> (\<forall>name. name \<noteq> ''Significance'' \<and> name \<noteq> ''-log10(padj)''
                 \<longrightarrow> getitem (heap st' ! r) name = getitem (heap st ! df) name)
           \<and> (\<exists>s y. cols (heap st' ! r)
                       = assign ''-log10(padj)'' y (assign ''Significance'' s (cols (heap st ! df)))
                 \<and> (''Significance'' \<notin> set (columns (heap st ! df))
                      \<and> ''-log10(padj)'' \<notin> set (columns (heap st ! df))
                     \<longrightarrow> cols (heap st' ! r)
                           = cols (heap st ! df) @ [(''Significance'', s), (''-log10(padj)'', y)])))"
proof (cases res)
  case (Inl e)
  with run have "st' = st\<lparr>heap := heap st @ [heap st ! df]\<rparr>"
    using filter_deseq_data_Inl by blast
  with Inl df show ?thesis by (simp add: nth_append)
next
  case (Inr r)
  let ?f = "heap st ! df"
  from run Inr have run': "filter_deseq_data st df padj_threshold log2fc_up log2fc_down = (Inr r, st')"
    by simp
  from filter_deseq_data_result [OF run' df wf] obtain xs ys
    where r: "r = length (heap st)"
      and st': "st' = st\<lparr>heap := heap st @ [annotate ?f xs ys padj_threshold log2fc_up log2fc_down]\<rparr>"
    by blast
  let ?s = "map Str (map2 (\<lambda>x y. significance_of x y padj_threshold log2fc_up log2fc_down) xs ys)"
  let ?y = "map Num (map (\<lambda>x. flt_neg (flt_log10 (floor_zero padj_floor x))) xs)"
  have g: "heap st' ! r = annotate ?f xs ys padj_threshold log2fc_up log2fc_down"
    using r st' by simp
  have c: "cols (heap st' ! r) = assign ''-log10(padj)'' ?y (assign ''Significance'' ?s (cols ?f))"
    by (simp add: g cols_annotate)
  have fresh: "cols (heap st' ! r) = cols ?f @ [(''Significance'', ?s), (''-log10(padj)'', ?y)]"
    if "''Significance'' \<notin> set (columns ?f) \<and> ''-log10(padj)'' \<notin> set (columns ?f)"
  proof -
    from that have a: "''Significance'' \<notin> fst ` set (cols ?f)"
      and b: "''-log10(padj)'' \<notin> fst ` set (cols ?f @ [(''Significance'', ?s)])"
      by (simp_all add: columns_image)
    show ?thesis unfolding c assign_new [OF a] assign_new [OF b] by simp
  qed
  have other: "getitem (heap st' ! r) name = getitem ?f name"
    if "name \<noteq> ''Significance'' \<and> name \<noteq> ''-log10(padj)''" for name
    using that by (simp add: g getitem_annotate)
  have 1: "take (length (heap st)) (heap st') = heap st" using st' by simp
  have 2: "heap st' ! df = heap st ! df" using st' df by (simp add: nth_append)
  have 3: "warnings st' = warnings st" using st' by simp
  have 4: "length (heap st') = Suc (length (heap st))" using st' by simp
  have 5: "index (heap st' ! r) = index ?f" by (simp add: g index_annotate)
  from c fresh have 6: "\<exists>s y. cols (heap st' ! r)
                       = assign ''-log10(padj)'' y (assign ''Significance'' s (cols ?f))
                 \<and> (''Significance'' \<notin> set (columns ?f) \<and> ''-log10(padj)'' \<notin> set (columns ?f)
                     \<longrightarrow> cols (heap st' ! r)
                           = cols ?f @ [(''Significance'', s), (''-log10(padj)'', y)])"
    by blast
  from Inr r 1 2 3 4 5 6 other show ?thesis by simp
qed

lemma example_hyps:
  "0 < length (heap example_session)" "wf_frame (heap example_session ! 0)"
  by (simp_all add: example_session_def example_frame_def wf_frame_def)

text \<open>
  The instance of C5 on the example table, which has neither derived column.
\<close>

theorem filter_deseq_data_frame_effect_witness:
  "filter_deseq_data example_session 0 (Finite (1 / 20)) (Finite 1) (Finite (- 1))
     = (Inr 1, snd (filter_deseq_data example_session 0 (Finite (1 / 20)) (Finite 1) (Finite (- 1))))
   \<and> 0 < length (heap example_session)
   \<and> wf_frame (heap example_session ! 0)
   \<and> ''Significance'' \<notin> set (columns (heap example_session ! 0))
   \<and> ''-log10(padj)'' \<notin> set (columns (heap example_session ! 0))
   \<and> heap (snd (filter_deseq_data example_session 0 (Finite (1 / 20)) (Finite 1) (Finite (- 1)))) ! 0
       = heap example_session ! 0
   \<and> (\<exists>s y. cols (heap (snd (filter_deseq_data example_session 0 (Finite (1 / 20)) (Finite 1) (Finite (- 1)))) ! 1)
              = cols (heap example_session ! 0) @ [(''Significance'', s), (''-log10(padj)'', y)])"
proof -
  let ?st' = "snd (filter_deseq_data example_session 0 (Finite (1 / 20)) (Finite 1) (Finite (- 1)))"
  have 0: "filter_deseq_data example_session 0 (Finite (1 / 20)) (Finite 1) (Finite (- 1)) = (Inr 1, ?st')"
    by (simp add: example_run)
  note 1 = example_hyps(1) and 2 = example_hyps(2)
  have 3: "''Significance'' \<notin> set (columns (heap example_session ! 0))
           \<and> ''-log10(padj)'' \<notin> set (columns (heap example_session ! 0))"
    by (simp add: example_session_def example_frame_def columns_def)
  note T = filter_deseq_data_frame_effect [OF 0 1 2]
  from T have a: "heap ?st' ! 0 = heap example_session ! 0" by (elim conjE)
  from T have "\<forall>r. (Inr 1 :: error + nat) = Inr r \<longrightarrow>
             r = length (heap example_session) \<and> length (heap ?st') = Suc (length (heap example_session))
           \<and> index (heap ?st' ! r) = index (heap example_session ! 0)
           \<and> (\<forall>name. name \<noteq> ''Significance'' \<and> name \<noteq> ''-log10(padj)''
                 \<longrightarrow> getitem (heap ?st' ! r) name = getitem (heap example_session ! 0) name)
           \<and> (\<exists>s y. cols (heap ?st' ! r)
                       = assign ''-log10(padj)'' y (assign ''Significance'' s (cols (heap example_session ! 0)))
                 \<and> (''Significance'' \<notin> set (columns (heap example_session ! 0))
                      \<and> ''-log10(padj)'' \<notin> set (columns (heap example_session ! 0))
                     \<longrightarrow> cols (heap ?st' ! r)
                           = cols (heap example_session ! 0) @ [(''Significance'', s), (''-log10(padj)'', y)]))"
    by (elim conjE)
  from this [rule_format, OF refl]
  have "\<exists>s y. cols (heap ?st' ! 1)
                       = assign ''-log10(padj)'' y (assign ''Significance'' s (cols (heap example_session ! 0)))
                 \<and> (''Significance'' \<notin> set (columns (heap example_session ! 0))
                      \<and> ''-log10(padj)'' \<notin> set (columns (heap example_session ! 0))
                     \<longrightarrow> cols (heap ?st' ! 1)
                           = cols (heap example_session ! 0) @ [(''Significance'', s), (''-log10(padj)'', y)])"
    by (elim conjE)
  then obtain s y where
    "''Significance'' \<notin> set (columns (heap example_session ! 0))
        \<and> ''-log10(padj)'' \<notin> set (columns (heap example_session ! 0))
     \<longrightarrow> cols (heap ?st' ! 1)
          = cols (heap example_session ! 0) @ [(''Significance'', s), (''-log10(padj)'', y)]"
    by (elim exE conjE)
  with 3 have b: "\<exists>s y. cols (heap ?st' ! 1)
          = cols (heap example_session ! 0) @ [(''Significance'', s), (''-log10(padj)'', y)]"
    by blast
  from 0 1 2 3 a b show ?thesis by (intro conjI) (elim conjE, assumption)+
qed

lemma relabelled_run:
  "filter_deseq_data relabelled_session 0 (Finite (1 / 20)) (Finite 1) (Finite (- 1)) =
     (Inr 1, relabelled_session\<lparr>heap := [relabelled_frame,
        annotate relabelled_frame [Finite (1 / 2)] [Finite 2] (Finite (1 / 20)) (Finite 1) (Finite (- 1))]\<rparr>)"
proof -
  have 1: "0 < length (heap relabelled_session)" by (simp add: relabelled_session_def)
  have f: "heap relabelled_session ! 0 = relabelled_frame" by (simp add: relabelled_session_def)
  have 2: "wf_frame (heap relabelled_session ! 0)" by (simp add: f relabelled_frame_def wf_frame_def)
  have 3: "getitem (heap relabelled_session ! 0) ''padj'' = Inr (map Num [Finite (1 / 2)])"
    by (simp add: f relabelled_frame_def getitem_def)
  have 4: "getitem (heap relabelled_session ! 0) ''log2FoldChange'' = Inr (map Num [Finite 2])"
    by (simp add: f relabelled_frame_def getitem_def)
  show ?thesis
    using filter_deseq_data_numeric [OF 1 2 3 4, of "Finite (1 / 20)" "Finite 1" "Finite (- 1)"]
    by (simp add: f) (simp add: relabelled_session_def)
qed

text \<open>
  C5 as stated fails on an input that already has a column named
  \<open>Significance\<close>: the returned table differs from the input on that column
  (\<open>Upregulated\<close> becomes \<open>Not Significant\<close> for \<open>padj = 0.5\<close>), and it has one
  column more than the input, not two.
\<close>

theorem existing_column_overwritten_counterexample:
  "getitem (heap relabelled_session ! 0) ''Significance'' = Inr [Str ''Upregulated'']
   \<and> fst (filter_deseq_data relabelled_session 0 (Finite (1 / 20)) (Finite 1) (Finite (- 1))) = Inr 1
   \<and> getitem (heap (snd (filter_deseq_data relabelled_session 0 (Finite (1 / 20)) (Finite 1) (Finite (- 1)))) ! 1)
       ''Significance'' = Inr [Str ''Not Significant'']
   \<and> columns (heap relabelled_session ! 0) = [''padj'', ''Significance'', ''log2FoldChange'']
   \<and> columns (heap (snd (filter_deseq_data relabelled_session 0 (Finite (1 / 20)) (Finite 1) (Finite (- 1)))) ! 1)
       = [''padj'', ''Significance'', ''log2FoldChange'', ''-log10(padj)'']"
proof -
  have a: "getitem (heap relabelled_session ! 0) ''Significance'' = Inr [Str ''Upregulated'']"
    by (simp add: relabelled_session_def relabelled_frame_def getitem_def)
  have b: "fst (filter_deseq_data relabelled_session 0 (Finite (1 / 20)) (Finite 1) (Finite (- 1))) = Inr 1"
    by (simp add: relabelled_run)
  have c: "getitem (heap (snd (filter_deseq_data relabelled_session 0 (Finite (1 / 20)) (Finite 1) (Finite (- 1)))) ! 1)
       ''Significance'' = Inr [Str ''Not Significant'']"
    by (simp add: relabelled_run getitem_annotate significance_of_def)
  have d: "columns (heap relabelled_session ! 0) = [''padj'', ''Significance'', ''log2FoldChange'']"
    by (simp add: relabelled_session_def relabelled_frame_def columns_def)
  have e: "columns (heap (snd (filter_deseq_data relabelled_session 0 (Finite (1 / 20)) (Finite 1) (Finite (- 1)))) ! 1)
       = [''padj'', ''Significance'', ''log2FoldChange'', ''-log10(padj)'']"
    by (simp add: relabelled_run columns_def cols_annotate) (simp add: relabelled_frame_def)
  from a b c d e show ?thesis by (intro conjI)
qed

lemma filter_deseq_data_fails:
  assumes "conditions (heap st ! df) t u d = Inl e"
  shows "filter_deseq_data st df t u d = (Inl e, st\<lparr>heap := heap st @ [heap st ! df]\<rparr>)"
  using assms unfolding filter_deseq_data_def df_copy_def new_frame_def by simp

lemma cell_at_annotate_significance:
  assumes "i < length xs" and "i < length ys"
  shows "cell_at (annotate f xs ys t u d) ''Significance'' i
           = Some (Str (significance_of (xs ! i) (ys ! i) t u d))"
  using assms by (simp add: cell_at_def getitem_annotate)

lemma cell_at_numeric:
  assumes "getitem f name = Inr (map Num xs)" and "i < length xs"
  shows "cell_at f name i = Some (Num (xs ! i))"
  using assms by (simp add: cell_at_def)

text \<open>
  C6. Classifying the same frame a second time, in the session the first call
  left, gives the same outcome: the same error, or a frame equal to the first
  one. And the \<open>Significance\<close> of a row depends only on the row's own \<open>padj\<close> and
  \<open>log2FoldChange\<close> and on the thresholds: two rows with the same two values,
  anywhere in any two tables classified with the same thresholds, get the same
  label.
\<close>

theorem recompute_deterministic:
  assumes df: "df < length (heap st)"
    and wf: "wf_frame (heap st ! df)"
  shows "outcome (filter_deseq_data
                    (snd (filter_deseq_data st df padj_threshold log2fc_up log2fc_down))
                    df padj_threshold log2fc_up log2fc_down)
           = outcome (filter_deseq_data st df padj_threshold log2fc_up log2fc_down)
       \<and> (\<forall>other df_other r r_other st' st_other' i j.
             filter_deseq_data st df padj_threshold log2fc_up log2fc_down = (Inr r, st')
           \<and> filter_deseq_data other df_other padj_threshold log2fc_up log2fc_down = (Inr r_other, st_other')
           \<and> df_other < length (heap other) \<and> wf_frame (heap other ! df_other)
           \<and> i < nrows (heap st ! df) \<and> j < nrows (heap other ! df_other)
           \<and> cell_at (heap st ! df) ''padj'' i = cell_at (heap other ! df_other) ''padj'' j
           \<and> cell_at (heap st ! df) ''log2FoldChange'' i = cell_at (heap other ! df_other) ''log2FoldChange'' j
           \<longrightarrow> cell_at (heap st' ! r) ''Significance'' i = cell_at (heap st_other' ! r_other) ''Significance'' j)"
proof (rule conjI)
  let ?f = "heap st ! df"
  let ?run = "filter_deseq_data st df padj_threshold log2fc_up log2fc_down"
  obtain res st1 where run: "?run = (res, st1)" by (cases ?run)
  show "outcome (filter_deseq_data (snd ?run) df padj_threshold log2fc_up log2fc_down) = outcome ?run"
  proof (cases res)
    case (Inl e)
    with run have st1: "st1 = st\<lparr>heap := heap st @ [?f]\<rparr>"
      and c: "conditions ?f padj_threshold log2fc_up log2fc_down = Inl e"
      using filter_deseq_data_Inl by blast+
    have "heap st1 ! df = ?f" using st1 df by (simp add: nth_append)
    with c have "filter_deseq_data st1 df padj_threshold log2fc_up log2fc_down
                   = (Inl e, st1\<lparr>heap := heap st1 @ [heap st1 ! df]\<rparr>)"
      by (intro filter_deseq_data_fails) simp
    with run Inl show ?thesis by (simp add: outcome_def)
  next
    case (Inr r)
    with run have run': "?run = (Inr r, st1)" by simp
    from filter_deseq_data_result [OF run' df wf] obtain xs ys
      where p: "getitem ?f ''padj'' = Inr (map Num xs)"
        and l: "getitem ?f ''log2FoldChange'' = Inr (map Num ys)"
        and r: "r = length (heap st)"
        and st1: "st1 = st\<lparr>heap := heap st @ [annotate ?f xs ys padj_threshold log2fc_up log2fc_down]\<rparr>"
      by blast
    have f1: "heap st1 ! df = ?f" using st1 df by (simp add: nth_append)
    have df1: "df < length (heap st1)" using st1 df by simp
    have wf1: "wf_frame (heap st1 ! df)" using wf f1 by simp
    have p1: "getitem (heap st1 ! df) ''padj'' = Inr (map Num xs)" using p f1 by simp
    have l1: "getitem (heap st1 ! df) ''log2FoldChange'' = Inr (map Num ys)" using l f1 by simp
    have "filter_deseq_data st1 df padj_threshold log2fc_up log2fc_down =
            (Inr (length (heap st1)),
             st1\<lparr>heap := heap st1 @ [annotate (heap st1 ! df) xs ys padj_threshold log2fc_up log2fc_down]\<rparr>)"
      by (rule filter_deseq_data_numeric [OF df1 wf1 p1 l1])
    then have "outcome (filter_deseq_data st1 df padj_threshold log2fc_up log2fc_down)
                 = Inr (annotate ?f xs ys padj_threshold log2fc_up log2fc_down)"
      by (simp add: outcome_def f1)
    moreover have "outcome ?run = Inr (annotate ?f xs ys padj_threshold log2fc_up log2fc_down)"
      using run' r st1 by (simp add: outcome_def)
    ultimately show ?thesis using run by simp
  qed
next
  let ?f = "heap st ! df"
  show "\<forall>other df_other r r_other st' st_other' i j.
             filter_deseq_data st df padj_threshold log2fc_up log2fc_down = (Inr r, st')
           \<and> filter_deseq_data other df_other padj_threshold log2fc_up log2fc_down = (Inr r_other, st_other')
           \<and> df_other < length (heap other) \<and> wf_frame (heap other ! df_other)
           \<and> i < nrows (heap st ! df) \<and> j < nrows (heap other ! df_other)
           \<and> cell_at (heap st ! df) ''padj'' i = cell_at (heap other ! df_other) ''padj'' j
           \<and> cell_at (heap st ! df) ''log2FoldChange'' i = cell_at (heap other ! df_other) ''log2FoldChange'' j
           \<longrightarrow> cell_at (heap st' ! r) ''Significance'' i = cell_at (heap st_other' ! r_other) ''Significance'' j"
  proof (intro allI impI, elim conjE)
    fix st2 :: session and df2 r r2 st' st2' i j
    let ?f2 = "heap st2 ! df2"
    assume run: "filter_deseq_data st df padj_threshold log2fc_up log2fc_down = (Inr r, st')"
      and run2: "filter_deseq_data st2 df2 padj_threshold log2fc_up log2fc_down = (Inr r2, st2')"
      and df2: "df2 < length (heap st2)" and wf2: "wf_frame ?f2"
      and i: "i < nrows ?f" and j: "j < nrows ?f2"
      and pe: "cell_at ?f ''padj'' i = cell_at ?f2 ''padj'' j"
      and le: "cell_at ?f ''log2FoldChange'' i = cell_at ?f2 ''log2FoldChange'' j"
    from filter_deseq_data_result [OF run df wf] obtain xs ys
      where p: "getitem ?f ''padj'' = Inr (map Num xs)"
        and l: "getitem ?f ''log2FoldChange'' = Inr (map Num ys)"
        and lx: "length xs = nrows ?f" and ly: "length ys = nrows ?f"
        and r: "r = length (heap st)"
        and st': "st' = st\<lparr>heap := heap st @ [annotate ?f xs ys padj_threshold log2fc_up log2fc_down]\<rparr>"
      by blast
    from filter_deseq_data_result [OF run2 df2 wf2] obtain xs2 ys2
      where p2: "getitem ?f2 ''padj'' = Inr (map Num xs2)"
        and l2: "getitem ?f2 ''log2FoldChange'' = Inr (map Num ys2)"
        and lx2: "length xs2 = nrows ?f2" and ly2: "length ys2 = nrows ?f2"
        and r2: "r2 = length (heap st2)"
        and st2': "st2' = st2\<lparr>heap := heap st2 @ [annotate ?f2 xs2 ys2 padj_threshold log2fc_up log2fc_down]\<rparr>"
      by blast
    have g: "heap st' ! r = annotate ?f xs ys padj_threshold log2fc_up log2fc_down"
      using r st' by simp
    have g2: "heap st2' ! r2 = annotate ?f2 xs2 ys2 padj_threshold log2fc_up log2fc_down"
      using r2 st2' by simp
    from pe have xe: "xs ! i = xs2 ! j"
      using cell_at_numeric [OF p, of i] cell_at_numeric [OF p2, of j] i j lx lx2 by simp
    from le have ye: "ys ! i = ys2 ! j"
      using cell_at_numeric [OF l, of i] cell_at_numeric [OF l2, of j] i j ly ly2 by simp
    show "cell_at (heap st' ! r) ''Significance'' i = cell_at (heap st2' ! r2) ''Significance'' j"
      unfolding g g2 using i j lx ly lx2 ly2 xe ye
      by (simp add: cell_at_annotate_significance)
  qed
qed

lemma other_run:
  "filter_deseq_data other_session 0 (Finite (1 / 20)) (Finite 1) (Finite (- 1)) =
     (Inr 1, other_session\<lparr>heap := [other_frame,
        annotate other_frame [Finite (1 / 5), Finite (1 / 1000)] [Finite (1 / 5), Finite (5 / 2)]
          (Finite (1 / 20)) (Finite 1) (Finite (- 1))]\<rparr>)"
proof -
  have 1: "0 < length (heap other_session)" by (simp add: other_session_def)
  have f: "heap other_session ! 0 = other_frame" by (simp add: other_session_def)
  have 2: "wf_frame (heap other_session ! 0)" by (simp add: f other_frame_def wf_frame_def)
  have 3: "getitem (heap other_session ! 0) ''padj'' = Inr (map Num [Finite (1 / 5), Finite (1 / 1000)])"
    by (simp add: f other_frame_def getitem_def)
  have 4: "getitem (heap other_session ! 0) ''log2FoldChange'' = Inr (map Num [Finite (1 / 5), Finite (5 / 2)])"
    by (simp add: f other_frame_def getitem_def)
  show ?thesis
    using filter_deseq_data_numeric [OF 1 2 3 4, of "Finite (1 / 20)" "Finite 1" "Finite (- 1)"]
    by (simp add: f) (simp add: other_session_def)
qed

text \<open>
  The instance of C6: the example table classified twice, and its first row
  against the second row of another table, which holds the same two values.
\<close>

theorem recompute_deterministic_witness:
  "0 < length (heap example_session)
   \<and> wf_frame (heap example_session ! 0)
   \<and> outcome (filter_deseq_data
                (snd (filter_deseq_data example_session 0 (Finite (1 / 20)) (Finite 1) (Finite (- 1))))
                0 (Finite (1 / 20)) (Finite 1) (Finite (- 1)))
       = outcome (filter_deseq_data example_session 0 (Finite (1 / 20)) (Finite 1) (Finite (- 1)))
   \<and> filter_deseq_data example_session 0 (Finite (1 / 20)) (Finite 1) (Finite (- 1))
       = (Inr 1, snd (filter_deseq_data example_session 0 (Finite (1 / 20)) (Finite 1) (Finite (- 1))))
   \<and> filter_deseq_data other_session 0 (Finite (1 / 20)) (Finite 1) (Finite (- 1))
       = (Inr 1, snd (filter_deseq_data other_session 0 (Finite (1 / 20)) (Finite 1) (Finite (- 1))))
   \<and> 0 < length (heap other_session) \<and> wf_frame (heap other_session ! 0)
   \<and> 0 < nrows (heap example_session ! 0) \<and> 1 < nrows (heap other_session ! 0)
   \<and> cell_at (heap example_session ! 0) ''padj'' 0 = cell_at (heap other_session ! 0) ''padj'' 1
   \<and> cell_at (heap example_session ! 0) ''log2FoldChange'' 0
       = cell_at (heap other_session ! 0) ''log2FoldChange'' 1
   \<and> cell_at (heap (snd (filter_deseq_data example_session 0 (Finite (1 / 20)) (Finite 1) (Finite (- 1)))) ! 1)
        ''Significance'' 0
       = cell_at (heap (snd (filter_deseq_data other_session 0 (Finite (1 / 20)) (Finite 1) (Finite (- 1)))) ! 1)
        ''Significance'' 1"
proof -
  let ?t = "Finite (1 / 20)" and ?u = "Finite 1" and ?d = "Finite (- 1)"
  note 1 = example_hyps(1) and 2 = example_hyps(2)
  note T = recompute_deterministic [OF 1 2, of ?t ?u ?d]
  from T have a: "outcome (filter_deseq_data (snd (filter_deseq_data example_session 0 ?t ?u ?d)) 0 ?t ?u ?d)
       = outcome (filter_deseq_data example_session 0 ?t ?u ?d)"
    by (elim conjE)
  have b: "filter_deseq_data example_session 0 ?t ?u ?d
             = (Inr 1, snd (filter_deseq_data example_session 0 ?t ?u ?d))"
    by (simp add: example_run)
  have c: "filter_deseq_data other_session 0 ?t ?u ?d
             = (Inr 1, snd (filter_deseq_data other_session 0 ?t ?u ?d))"
    by (simp add: other_run)
  have d: "0 < length (heap other_session)" "wf_frame (heap other_session ! 0)"
    by (simp_all add: other_session_def other_frame_def wf_frame_def)
  have e: "0 < nrows (heap example_session ! 0)" "1 < nrows (heap other_session ! 0)"
    by (simp_all add: example_session_def example_frame_def other_session_def other_frame_def nrows_def)
  have f: "cell_at (heap example_session ! 0) ''padj'' 0 = cell_at (heap other_session ! 0) ''padj'' 1"
    by (simp add: example_session_def example_frame_def other_session_def other_frame_def
        cell_at_def getitem_def)
  have g: "cell_at (heap example_session ! 0) ''log2FoldChange'' 0
             = cell_at (heap other_session ! 0) ''log2FoldChange'' 1"
    by (simp add: example_session_def example_frame_def other_session_def other_frame_def
        cell_at_def getitem_def)
  from T have R: "\<forall>other df_other r r_other st' st_other' i j.
             filter_deseq_data example_session 0 ?t ?u ?d = (Inr r, st')
           \<and> filter_deseq_data other df_other ?t ?u ?d = (Inr r_other, st_other')
           \<and> df_other < length (heap other) \<and> wf_frame (heap other ! df_other)
           \<and> i < nrows (heap example_session ! 0) \<and> j < nrows (heap other ! df_other)
           \<and> cell_at (heap example_session ! 0) ''padj'' i = cell_at (heap other ! df_other) ''padj'' j
           \<and> cell_at (heap example_session ! 0) ''log2FoldChange'' i = cell_at (heap other ! df_other) ''log2FoldChange'' j
           \<longrightarrow> cell_at (heap st' ! r) ''Significance'' i = cell_at (heap st_other' ! r_other) ''Significance'' j"
    by (elim conjE)
  have h: "cell_at (heap (snd (filter_deseq_data example_session 0 ?t ?u ?d)) ! 1) ''Significance'' 0
       = cell_at (heap (snd (filter_deseq_data other_session 0 ?t ?u ?d)) ! 1) ''Significance'' 1"
    by (rule R [rule_format, where other = other_session and df_other = 0 and r = 1
          and r_other = 1 and i = 0 and j = 1])
       (intro conjI b c d e f g)
  from 1 2 a b c d e f g h show ?thesis by (intro conjI)
qed

subsection \<open>Ingestion\<close>

lemma select_mask_Nil [simp]: "select_mask [] xs = []" "select_mask bs [] = []"
  by (simp_all add: select_mask_def)

lemma select_mask_Cons [simp]:
  "select_mask (b # bs) (x # xs) = (if b then x # select_mask bs xs else select_mask bs xs)"
  by (simp add: select_mask_def)

lemma select_mask_map: "select_mask bs (map f xs) = map f (select_mask bs xs)"
proof (induction bs arbitrary: xs)
  case Nil show ?case by simp
next
  case (Cons b bs) show ?case by (cases xs) (simp_all add: Cons.IH)
qed

lemma select_mask_self: "select_mask (map P xs) xs = filter P xs"
  by (induction xs) simp_all

lemma select_mask_positions:
  assumes "length xs = n"
  shows "select_mask (map P [0..<n]) xs = map (\<lambda>i. xs ! i) (filter P [0..<n])"
proof -
  have "xs = map (\<lambda>i. xs ! i) [0..<n]" unfolding assms [symmetric] by (simp add: map_nth)
  then have "select_mask (map P [0..<n]) xs = select_mask (map P [0..<n]) (map (\<lambda>i. xs ! i) [0..<n])"
    by simp
  also have "\<dots> = map (\<lambda>i. xs ! i) (select_mask (map P [0..<n]) [0..<n])"
    by (rule select_mask_map)
  finally show ?thesis by (simp add: select_mask_self)
qed

lemma map_of_map_cols:
  "map_of (map (\<lambda>c. (fst c, h (snd c))) cs) name = map_option h (map_of cs name)"
  by (induction cs) auto

lemma getitem_filter_rows:
  "getitem (filter_rows bs f) name =
     (case getitem f name of Inl e \<Rightarrow> Inl e | Inr vs \<Rightarrow> Inr (select_mask bs vs))"
  by (simp add: getitem_def filter_rows_def map_of_map_cols split: option.splits)


lemma getitem_Inr_columns: "name \<in> set (columns f) \<Longrightarrow> \<exists>vs. getitem f name = Inr vs"
  using getitem_columns by blast

lemma notna_mask_required:
  assumes l: "getitem f ''log2FoldChange'' = Inr lv" and p: "getitem f ''padj'' = Inr pv"
    and ll: "length lv = nrows f" and lp: "length pv = nrows f"
  shows "notna_mask f [''log2FoldChange'', ''padj''] = map (row_complete f) [0..<nrows f]"
proof -
  have ml: "map_of (cols f) ''log2FoldChange'' = Some lv"
    using l by (simp add: getitem_def split: option.splits)
  have mpv: "map_of (cols f) ''padj'' = Some pv"
    using p by (simp add: getitem_def split: option.splits)
  show ?thesis
    using ll lp
    by (intro nth_equalityI) (simp_all add: ml mpv row_complete_def cell_at_def l p)
qed

lemma dropna_required:
  assumes wf: "wf_frame f"
    and l: "''log2FoldChange'' \<in> set (columns f)" and p: "''padj'' \<in> set (columns f)"
  shows "dropna f [''log2FoldChange'', ''padj''] = Inr (filter_rows (map (row_complete f) [0..<nrows f]) f)"
proof -
  from l obtain lv where lv: "getitem f ''log2FoldChange'' = Inr lv" using getitem_Inr_columns by blast
  from p obtain pv where pv: "getitem f ''padj'' = Inr pv" using getitem_Inr_columns by blast
  have "notna_mask f [''log2FoldChange'', ''padj''] = map (row_complete f) [0..<nrows f]"
    using notna_mask_required [OF lv pv] getitem_length [OF wf lv] getitem_length [OF wf pv] by simp
  with l p show ?thesis by (simp add: dropna_def)
qed

lemma dropna_missing:
  assumes "''log2FoldChange'' \<notin> set (columns f) \<or> ''padj'' \<notin> set (columns f)"
  shows "\<exists>e. dropna f [''log2FoldChange'', ''padj''] = Inl e"
  using assms by (auto simp: dropna_def split: list.splits)

lemma select_mask_length:
  "length xs = length bs \<Longrightarrow> length (select_mask bs xs) = length (filter id bs)"
proof (induction bs arbitrary: xs)
  case Nil then show ?case by simp
next
  case (Cons b bs) then show ?case by (cases xs) simp_all
qed

lemma wf_filter_rows:
  assumes "wf_frame f" and "length bs = nrows f"
  shows "wf_frame (filter_rows bs f)"
  using assms
  by (auto simp: wf_frame_def filter_rows_def nrows_def list_all_iff select_mask_length)

lemma index_filter_rows_fresh:
  assumes "index f = [0..<nrows f]"
  shows "index (filter_rows (map P [0..<nrows f]) f) = filter P [0..<nrows f]"
proof -
  have "index (filter_rows (map P [0..<nrows f]) f) = select_mask (map P [0..<nrows f]) [0..<nrows f]"
    using assms by (simp add: filter_rows_def)
  then show ?thesis by (simp add: select_mask_self)
qed

lemma getitem_labelled:
  "getitem (labelled f g l) name =
     (if name = ''locus_tag'' then Inr l else if name = ''gene_name'' then Inr g else getitem f name)"
  by (simp add: labelled_def getitem_setitem)

lemma index_labelled: "index (labelled f g l) = index f"
  by (simp add: labelled_def index_setitem)

lemma nrows_labelled: "nrows (labelled f g l) = nrows f"
  by (simp add: labelled_def nrows_setitem)

lemma wf_labelled:
  "wf_frame f \<Longrightarrow> length g = nrows f \<Longrightarrow> length l = nrows f \<Longrightarrow> wf_frame (labelled f g l)"
  by (simp add: labelled_def wf_setitem nrows_setitem)

lemma assign_key_set: "fst ` set (assign name vs cs) = insert name (fst ` set cs)"
  by (induction cs) auto

lemma columns_setitem: "set (columns (setitem f name vs)) = insert name (set (columns f))"
  by (simp add: columns_def setitem_def assign_key_set)

lemma columns_labelled: "set (columns (labelled f g l)) = set (columns f) \<union> {''gene_name'', ''locus_tag''}"
  by (auto simp: labelled_def columns_setitem)

lemma row_complete_labelled: "row_complete (labelled f g l) = row_complete f"
  by (rule ext) (simp add: row_complete_def cell_at_def getitem_labelled)

lemma complete_rows_labelled: "complete_rows (labelled f g l) = complete_rows f"
  by (simp add: complete_rows_def row_complete_labelled nrows_labelled)

lemma label_genes_without_attributes:
  assumes "''Attributes'' \<notin> set (columns (heap st ! df))"
  shows "label_genes float_str st df =
           (Inr (), st\<lparr>heap := (heap st)[df := labelled (heap st ! df)
                                   (index_labels (index (heap st ! df)))
                                   (index_labels (index (heap st ! df)))],
                      warnings := warnings st @ [attributes_warning]\<rparr>)"
proof (cases "df < length (heap st)")
  case True
  with assms show ?thesis
    by (simp add: label_genes_def Let_def st_warning_def df_setitem_def labelled_def
        index_labels_def index_setitem)
next
  case False
  with assms show ?thesis
    by (simp add: label_genes_def Let_def st_warning_def df_setitem_def labelled_def
        index_labels_def index_setitem list_update_beyond)
qed

lemma label_genes_with_attributes:
  assumes a: "''Attributes'' \<in> set (columns (heap st ! df))"
  shows "\<exists>attrs. getitem (heap st ! df) ''Attributes'' = Inr attrs \<and>
           (attrs = [] \<longrightarrow> label_genes float_str st df = (Inl ValueError, st)) \<and>
           (attrs \<noteq> [] \<longrightarrow> label_genes float_str st df =
             (Inr (), st\<lparr>heap := (heap st)[df := labelled (heap st ! df)
                 (map (\<lambda>x. Str (fst (extract_gene_info (attributes_arg float_str x)))) attrs)
                 (map (\<lambda>x. Str (snd (extract_gene_info (attributes_arg float_str x)))) attrs)]\<rparr>))"
proof -
  from a obtain attrs where g: "getitem (heap st ! df) ''Attributes'' = Inr attrs"
    using getitem_Inr_columns by blast
  have e: "attrs = [] \<longrightarrow> label_genes float_str st df = (Inl ValueError, st)"
    using a g by (simp add: label_genes_def)
  have "attrs \<noteq> [] \<longrightarrow> label_genes float_str st df =
             (Inr (), st\<lparr>heap := (heap st)[df := labelled (heap st ! df)
                 (map (\<lambda>x. Str (fst (extract_gene_info (attributes_arg float_str x)))) attrs)
                 (map (\<lambda>x. Str (snd (extract_gene_info (attributes_arg float_str x)))) attrs)]\<rparr>)"
  proof (cases "df < length (heap st)")
    case True
    with a g show ?thesis
      by (simp add: label_genes_def Let_def df_setitem_def labelled_def comp_def)
  next
    case False
    with a g show ?thesis
      by (simp add: label_genes_def Let_def df_setitem_def labelled_def comp_def list_update_beyond)
  qed
  with g e show ?thesis by blast
qed

lemma label_genes_no_rows:
  assumes wf: "wf_frame (heap st ! df)"
    and a: "''Attributes'' \<in> set (columns (heap st ! df))"
    and n: "nrows (heap st ! df) = 0"
  shows "label_genes float_str st df = (Inl ValueError, st)"
proof -
  from label_genes_with_attributes [OF a, of float_str] obtain attrs
    where g: "getitem (heap st ! df) ''Attributes'' = Inr attrs"
      and e: "attrs = [] \<longrightarrow> label_genes float_str st df = (Inl ValueError, st)"
    by blast
  have "length attrs = nrows (heap st ! df)" by (rule getitem_length [OF wf g])
  with n e show ?thesis by simp
qed

lemma label_genes_effect:
  assumes wf: "wf_frame (heap st ! df)"
    and ne: "''Attributes'' \<in> set (columns (heap st ! df)) \<longrightarrow> 0 < nrows (heap st ! df)"
  shows "\<exists>g l w. label_genes float_str st df =
                    (Inr (), st\<lparr>heap := (heap st)[df := labelled (heap st ! df) g l],
                               warnings := warnings st @ w\<rparr>)
               \<and> length g = nrows (heap st ! df) \<and> length l = nrows (heap st ! df)
               \<and> (''Attributes'' \<notin> set (columns (heap st ! df)) \<longrightarrow>
                    g = index_labels (index (heap st ! df)) \<and> l = index_labels (index (heap st ! df))
                    \<and> w = [attributes_warning])"
proof (cases "''Attributes'' \<in> set (columns (heap st ! df))")
  case True
  from label_genes_with_attributes [OF True, of float_str] obtain attrs
    where g: "getitem (heap st ! df) ''Attributes'' = Inr attrs"
      and e0: "attrs \<noteq> [] \<longrightarrow> label_genes float_str st df =
             (Inr (), st\<lparr>heap := (heap st)[df := labelled (heap st ! df)
                 (map (\<lambda>x. Str (fst (extract_gene_info (attributes_arg float_str x)))) attrs)
                 (map (\<lambda>x. Str (snd (extract_gene_info (attributes_arg float_str x)))) attrs)]\<rparr>)"
    by blast
  have n: "length attrs = nrows (heap st ! df)" by (rule getitem_length [OF wf g])
  with ne True have "attrs \<noteq> []" by auto
  with e0 have e: "label_genes float_str st df =
             (Inr (), st\<lparr>heap := (heap st)[df := labelled (heap st ! df)
                 (map (\<lambda>x. Str (fst (extract_gene_info (attributes_arg float_str x)))) attrs)
                 (map (\<lambda>x. Str (snd (extract_gene_info (attributes_arg float_str x)))) attrs)]\<rparr>)"
    by simp
  show ?thesis
    apply (rule exI [of _ "map (\<lambda>x. Str (fst (extract_gene_info (attributes_arg float_str x)))) attrs"])
    apply (rule exI [of _ "map (\<lambda>x. Str (snd (extract_gene_info (attributes_arg float_str x)))) attrs"])
    apply (rule exI [of _ "[]"])
    using True e n by simp
next
  case False
  show ?thesis
    apply (rule exI [of _ "index_labels (index (heap st ! df))"])
    apply (rule exI [of _ "index_labels (index (heap st ! df))"])
    apply (rule exI [of _ "[attributes_warning]"])
    using label_genes_without_attributes [OF False, of float_str]
    by (simp add: index_labels_def nrows_def)
qed

lemma ingest_effect:
  assumes df: "df < length (heap st)"
    and wf: "wf_frame (heap st ! df)"
    and lc: "''log2FoldChange'' \<in> set (columns (heap st ! df))"
    and pc: "''padj'' \<in> set (columns (heap st ! df))"
    and ne: "''Attributes'' \<in> set (columns (heap st ! df)) \<longrightarrow> 0 < nrows (heap st ! df)"
  shows "\<exists>g l w. ingest float_str st df =
                    (Inr (length (heap st)),
                     st\<lparr>heap := (heap st)[df := labelled (heap st ! df) g l]
                                   @ [ingested (heap st ! df) g l],
                        warnings := warnings st @ w\<rparr>)
               \<and> length g = nrows (heap st ! df) \<and> length l = nrows (heap st ! df)
               \<and> (''Attributes'' \<notin> set (columns (heap st ! df)) \<longrightarrow>
                    g = index_labels (index (heap st ! df)) \<and> l = index_labels (index (heap st ! df))
                    \<and> w = [attributes_warning])"
proof -
  let ?f = "heap st ! df"
  from label_genes_effect [OF wf ne, of float_str] obtain g l w where
    e: "label_genes float_str st df =
          (Inr (), st\<lparr>heap := (heap st)[df := labelled ?f g l], warnings := warnings st @ w\<rparr>)"
    and lg: "length g = nrows ?f" and ll: "length l = nrows ?f"
    and na: "''Attributes'' \<notin> set (columns ?f) \<longrightarrow>
               g = index_labels (index ?f) \<and> l = index_labels (index ?f) \<and> w = [attributes_warning]"
    by blast
  let ?st1 = "st\<lparr>heap := (heap st)[df := labelled ?f g l], warnings := warnings st @ w\<rparr>"
  have f1: "heap ?st1 ! df = labelled ?f g l" using df by simp
  have wf1: "wf_frame (labelled ?f g l)" by (rule wf_labelled [OF wf lg ll])
  have c1: "''log2FoldChange'' \<in> set (columns (labelled ?f g l))"
           "''padj'' \<in> set (columns (labelled ?f g l))"
    using lc pc by (simp_all add: columns_labelled)
  have d: "dropna (labelled ?f g l) [''log2FoldChange'', ''padj''] = Inr (ingested ?f g l)"
    using dropna_required [OF wf1 c1]
    by (simp add: ingested_def row_complete_labelled nrows_labelled)
  have "ingest float_str st df =
          (Inr (length (heap st)),
           st\<lparr>heap := (heap st)[df := labelled ?f g l] @ [ingested ?f g l],
              warnings := warnings st @ w\<rparr>)"
    unfolding ingest_def e using df by (simp add: df_dropna_def d new_frame_def)
  with lg ll na show ?thesis by blast
qed

lemma ingest_Inr_rows:
  assumes run: "ingest float_str st df = (Inr r, st')"
    and wf: "wf_frame (heap st ! df)"
  shows "''Attributes'' \<in> set (columns (heap st ! df)) \<longrightarrow> 0 < nrows (heap st ! df)"
proof (rule ccontr)
  assume "\<not> (''Attributes'' \<in> set (columns (heap st ! df)) \<longrightarrow> 0 < nrows (heap st ! df))"
  then have a: "''Attributes'' \<in> set (columns (heap st ! df))"
    and n: "nrows (heap st ! df) = 0" by simp_all
  have "ingest float_str st df = (Inl ValueError, st)"
    unfolding ingest_def label_genes_no_rows [OF wf a n] by simp
  with run show False by simp
qed

lemma ingest_Inr_columns:
  assumes run: "ingest float_str st df = (Inr r, st')"
    and df: "df < length (heap st)"
    and wf: "wf_frame (heap st ! df)"
  shows "''log2FoldChange'' \<in> set (columns (heap st ! df)) \<and> ''padj'' \<in> set (columns (heap st ! df))"
proof (rule ccontr)
  let ?f = "heap st ! df"
  assume "\<not> (''log2FoldChange'' \<in> set (columns ?f) \<and> ''padj'' \<in> set (columns ?f))"
  then have m: "''log2FoldChange'' \<notin> set (columns ?f) \<or> ''padj'' \<notin> set (columns ?f)" by blast
  note ne = ingest_Inr_rows [OF run wf]
  from label_genes_effect [OF wf ne, of float_str] obtain g l w where
    e: "label_genes float_str st df =
          (Inr (), st\<lparr>heap := (heap st)[df := labelled ?f g l], warnings := warnings st @ w\<rparr>)"
    by blast
  let ?st1 = "st\<lparr>heap := (heap st)[df := labelled ?f g l], warnings := warnings st @ w\<rparr>"
  have f1: "heap ?st1 ! df = labelled ?f g l" using df by simp
  from m have "''log2FoldChange'' \<notin> set (columns (labelled ?f g l))
               \<or> ''padj'' \<notin> set (columns (labelled ?f g l))"
    by (simp add: columns_labelled)
  from dropna_missing [OF this] obtain err
    where "dropna (labelled ?f g l) [''log2FoldChange'', ''padj''] = Inl err" by blast
  then have "ingest float_str st df = (Inl err, ?st1)"
    unfolding ingest_def e using df by (simp add: df_dropna_def)
  with run show False by simp
qed

lemma getitem_ingested:
  "getitem (ingested f g l) name =
     (case getitem (labelled f g l) name of
        Inl e \<Rightarrow> Inl e
      | Inr vs \<Rightarrow> Inr (select_mask (map (row_complete f) [0..<nrows f]) vs))"
  by (simp add: ingested_def getitem_filter_rows)




lemma raw_hyps:
  "0 < length (heap raw_session)" "wf_frame (heap raw_session ! 0)"
  "index (heap raw_session ! 0) = [0..<nrows (heap raw_session ! 0)]"
  "''Attributes'' \<notin> set (columns (heap raw_session ! 0))"
  "''log2FoldChange'' \<in> set (columns (heap raw_session ! 0)) \<and> ''padj'' \<in> set (columns (heap raw_session ! 0))"
  by (simp_all add: raw_session_def raw_frame_def wf_frame_def nrows_def columns_def upt_rec)

lemma raw_complete_rows: "complete_rows (heap raw_session ! 0) = [0, 3]"
  by (simp add: raw_session_def raw_frame_def complete_rows_def nrows_def row_complete_def
      cell_at_def getitem_def upt_rec)


lemma row_named_complete_rows: "complete_rows (heap row_named_session ! 0) = [0, 1, 2]"
  by (simp add: row_named_session_def row_named_frame_def complete_rows_def nrows_def row_complete_def
      cell_at_def getitem_def upt_rec)






lemma index_ingested_labels:
  "index (ingested f g l) = map (\<lambda>i. index f ! i) (complete_rows f)"
proof -
  have "length (index f) = nrows f" by (simp add: nrows_def)
  from select_mask_positions [OF this, of "row_complete f"]
  show ?thesis
    by (simp add: ingested_def filter_rows_def index_labelled nrows_labelled complete_rows_def)
qed

lemma significance_of_labels:
  "significance_of x y t u d = ''Upregulated'' \<or> significance_of x y t u d = ''Downregulated''
   \<or> significance_of x y t u d = ''Not Significant''"
  by (simp add: significance_of_def)

lemma select_mask_subset: "set (select_mask bs xs) \<subseteq> set xs"
  by (auto simp: select_mask_def dest: set_zip_rightD)

text \<open>
  C4. When ingestion and classification of a loaded table return the working
  table, its rows are exactly the rows of the loaded table that have a value in
  both \<open>log2FoldChange\<close> and \<open>padj\<close>, in their order and under their row
  labels: a row that misses either value is not in it at all. Each row carries
  the loaded values in every column that the pipeline does not write itself; no
  \<open>log2FoldChange\<close> or \<open>padj\<close> is missing in it; and every row has one of the
  three labels in \<open>Significance\<close>.
\<close>

theorem ingested_rows_complete_and_classified:
  assumes run: "main_pipeline float_str st df padj_threshold log2fc_up log2fc_down = (Inr r, st')"
    and df: "df < length (heap st)"
    and wf: "wf_frame (heap st ! df)"
  shows "index (heap st' ! r)
           = map (\<lambda>i. index (heap st ! df) ! i) (complete_rows (heap st ! df))
       \<and> (\<forall>name vs. name \<noteq> ''gene_name'' \<and> name \<noteq> ''locus_tag'' \<and> name \<noteq> ''Significance''
                    \<and> name \<noteq> ''-log10(padj)'' \<and> getitem (heap st ! df) name = Inr vs
             \<longrightarrow> getitem (heap st' ! r) name
                   = Inr (map (\<lambda>i. vs ! i) (complete_rows (heap st ! df))))
       \<and> (\<exists>p l s. getitem (heap st' ! r) ''padj'' = Inr p
                 \<and> getitem (heap st' ! r) ''log2FoldChange'' = Inr l
                 \<and> getitem (heap st' ! r) ''Significance'' = Inr (map Str s)
                 \<and> length p = nrows (heap st' ! r) \<and> length l = nrows (heap st' ! r)
                 \<and> length s = nrows (heap st' ! r)
                 \<and> (\<forall>c \<in> set p. \<not> isna c) \<and> (\<forall>c \<in> set l. \<not> isna c)
                 \<and> (\<forall>x \<in> set s. x = ''Upregulated'' \<or> x = ''Downregulated''
                                 \<or> x = ''Not Significant''))"
proof -
  let ?f = "heap st ! df"
  let ?m = "map (row_complete ?f) [0..<nrows ?f]"
  obtain res st1 where ing: "ingest float_str st df = (res, st1)"
    by (cases "ingest float_str st df")
  from run ing obtain df' where res: "res = Inr df'"
    and cls: "filter_deseq_data st1 df' padj_threshold log2fc_up log2fc_down = (Inr r, st')"
    by (cases res) (simp_all add: main_pipeline_def)
  from ing res have ing': "ingest float_str st df = (Inr df', st1)" by simp
  from ingest_Inr_columns [OF ing' df wf]
  have lc: "''log2FoldChange'' \<in> set (columns ?f)" and pc: "''padj'' \<in> set (columns ?f)"
    by simp_all
  note ne = ingest_Inr_rows [OF ing' wf]
  from ingest_effect [OF df wf lc pc ne, of float_str] ing' obtain g l w
    where df': "df' = length (heap st)"
      and st1: "st1 = st\<lparr>heap := (heap st)[df := labelled ?f g l] @ [ingested ?f g l],
                          warnings := warnings st @ w\<rparr>"
      and lg: "length g = nrows ?f" and ll: "length l = nrows ?f"
    by auto
  let ?F = "ingested ?f g l"
  have F: "heap st1 ! df' = ?F" by (simp add: st1 df' nth_append)
  have dfl: "df' < length (heap st1)" by (simp add: st1 df')
  have wfF: "wf_frame (heap st1 ! df')"
    unfolding F ingested_def
    by (intro wf_filter_rows wf_labelled wf lg ll) (simp add: nrows_labelled)
  from filter_deseq_data_result [OF cls dfl wfF] obtain xs ys
    where px: "getitem ?F ''padj'' = Inr (map Num xs)"
      and ly: "getitem ?F ''log2FoldChange'' = Inr (map Num ys)"
      and lx: "length xs = nrows ?F" and lly: "length ys = nrows ?F"
      and r: "r = length (heap st1)"
      and st': "st' = st1\<lparr>heap := heap st1 @ [annotate ?F xs ys padj_threshold log2fc_up log2fc_down]\<rparr>"
    unfolding F by blast
  have G: "heap st' ! r = annotate ?F xs ys padj_threshold log2fc_up log2fc_down"
    using r st' by simp
  have n: "nrows (heap st' ! r) = nrows ?F" by (simp add: G nrows_annotate)
  have 1: "index (heap st' ! r) = map (\<lambda>i. index ?f ! i) (complete_rows ?f)"
    by (simp add: G index_annotate index_ingested_labels)
  have 2: "getitem (heap st' ! r) name = Inr (map (\<lambda>i. vs ! i) (complete_rows ?f))"
    if a: "name \<noteq> ''gene_name'' \<and> name \<noteq> ''locus_tag'' \<and> name \<noteq> ''Significance''
           \<and> name \<noteq> ''-log10(padj)'' \<and> getitem ?f name = Inr vs" for name vs
  proof -
    from a have v: "getitem ?f name = Inr vs" by simp
    have "length vs = nrows ?f" by (rule getitem_length [OF wf v])
    from select_mask_positions [OF this, of "row_complete ?f"]
    have "select_mask ?m vs = map (\<lambda>i. vs ! i) (complete_rows ?f)"
      by (simp add: complete_rows_def)
    with a show ?thesis
      by (simp add: G getitem_annotate getitem_ingested getitem_labelled)
  qed
  have pl: "getitem (labelled ?f g l) ''padj'' = getitem ?f ''padj''"
       "getitem (labelled ?f g l) ''log2FoldChange'' = getitem ?f ''log2FoldChange''"
    by (simp_all add: getitem_labelled)
  from pc obtain pv where pv: "getitem ?f ''padj'' = Inr pv" using getitem_Inr_columns by blast
  from lc obtain lv where lv: "getitem ?f ''log2FoldChange'' = Inr lv" using getitem_Inr_columns by blast
  have lpv: "length pv = nrows ?f" by (rule getitem_length [OF wf pv])
  have llv: "length lv = nrows ?f" by (rule getitem_length [OF wf lv])
  have pe: "map Num xs = map (\<lambda>i. pv ! i) (complete_rows ?f)"
    using px select_mask_positions [OF lpv, of "row_complete ?f"]
    by (simp add: getitem_ingested pl pv complete_rows_def)
  have le: "map Num ys = map (\<lambda>i. lv ! i) (complete_rows ?f)"
    using ly select_mask_positions [OF llv, of "row_complete ?f"]
    by (simp add: getitem_ingested pl lv complete_rows_def)
  have rc: "\<not> isna (pv ! i) \<and> \<not> isna (lv ! i)" if "i \<in> set (complete_rows ?f)" for i
    using that lpv llv
    by (auto simp: complete_rows_def row_complete_def cell_at_def pv lv)
  have 3: "\<forall>c \<in> set (map Num xs). \<not> isna c" unfolding pe using rc by auto
  have 4: "\<forall>c \<in> set (map Num ys). \<not> isna c" unfolding le using rc by auto
  let ?s = "map2 (\<lambda>x y. significance_of x y padj_threshold log2fc_up log2fc_down) xs ys"
  have 5: "\<forall>x \<in> set ?s. x = ''Upregulated'' \<or> x = ''Downregulated'' \<or> x = ''Not Significant''"
    using significance_of_labels by (auto simp: set_zip)
  have 6: "getitem (heap st' ! r) ''padj'' = Inr (map Num xs)"
          "getitem (heap st' ! r) ''log2FoldChange'' = Inr (map Num ys)"
          "getitem (heap st' ! r) ''Significance'' = Inr (map Str ?s)"
    using px ly by (simp_all add: G getitem_annotate)
  have 7: "length (map Num xs) = nrows (heap st' ! r)" "length (map Num ys) = nrows (heap st' ! r)"
          "length ?s = nrows (heap st' ! r)"
    using lx lly n by simp_all
  from 6 7 3 4 5
  have 8: "\<exists>p l s. getitem (heap st' ! r) ''padj'' = Inr p
                 \<and> getitem (heap st' ! r) ''log2FoldChange'' = Inr l
                 \<and> getitem (heap st' ! r) ''Significance'' = Inr (map Str s)
                 \<and> length p = nrows (heap st' ! r) \<and> length l = nrows (heap st' ! r)
                 \<and> length s = nrows (heap st' ! r)
                 \<and> (\<forall>c \<in> set p. \<not> isna c) \<and> (\<forall>c \<in> set l. \<not> isna c)
                 \<and> (\<forall>x \<in> set s. x = ''Upregulated'' \<or> x = ''Downregulated''
                                 \<or> x = ''Not Significant'')"
    by blast
  from 1 2 8 show ?thesis by blast
qed

lemma main_pipeline_returns:
  assumes df: "df < length (heap st)"
    and wf: "wf_frame (heap st ! df)"
    and p: "getitem (heap st ! df) ''padj'' = Inr (map Num pv)"
    and l: "getitem (heap st ! df) ''log2FoldChange'' = Inr (map Num lv)"
    and ne: "''Attributes'' \<in> set (columns (heap st ! df)) \<longrightarrow> 0 < nrows (heap st ! df)"
  shows "\<exists>st'. main_pipeline float_str st df t u d = (Inr (Suc (length (heap st))), st')"
proof -
  let ?f = "heap st ! df"
  let ?m = "map (row_complete ?f) [0..<nrows ?f]"
  have pc: "''padj'' \<in> set (columns ?f)" using p getitem_columns by blast
  have lc: "''log2FoldChange'' \<in> set (columns ?f)" using l getitem_columns by blast
  from ingest_effect [OF df wf lc pc ne, of float_str] obtain g la w
    where ing: "ingest float_str st df =
                  (Inr (length (heap st)),
                   st\<lparr>heap := (heap st)[df := labelled ?f g la] @ [ingested ?f g la],
                      warnings := warnings st @ w\<rparr>)"
      and lg: "length g = nrows ?f" and ll: "length la = nrows ?f"
    by blast
  let ?st1 = "st\<lparr>heap := (heap st)[df := labelled ?f g la] @ [ingested ?f g la],
                 warnings := warnings st @ w\<rparr>"
  let ?F = "ingested ?f g la"
  have F: "heap ?st1 ! length (heap st) = ?F" by (simp add: nth_append)
  have dfl: "length (heap st) < length (heap ?st1)" by simp
  have wfF0: "wf_frame ?F"
    unfolding ingested_def
    by (intro wf_filter_rows wf_labelled wf lg ll) (simp add: nrows_labelled)
  have wfF: "wf_frame (heap ?st1 ! length (heap st))"
    by (subst F) (rule wfF0)
  have px: "getitem (heap ?st1 ! length (heap st)) ''padj'' = Inr (map Num (select_mask ?m pv))"
    by (subst F) (simp add: getitem_ingested getitem_labelled p select_mask_map)
  have lx: "getitem (heap ?st1 ! length (heap st)) ''log2FoldChange'' = Inr (map Num (select_mask ?m lv))"
    by (subst F) (simp add: getitem_ingested getitem_labelled l select_mask_map)
  from filter_deseq_data_numeric [OF dfl wfF px lx, of t u d]
  have "fst (filter_deseq_data ?st1 (length (heap st)) t u d) = Inr (Suc (length (heap st)))"
    by simp
  then have "fst (main_pipeline float_str st df t u d) = Inr (Suc (length (heap st)))"
    by (simp add: main_pipeline_def ing)
  then show ?thesis by (cases "main_pipeline float_str st df t u d") simp
qed

lemma raw_rows:
  "''Attributes'' \<in> set (columns (heap raw_session ! 0)) \<longrightarrow> 0 < nrows (heap raw_session ! 0)"
  using raw_hyps(4) by simp

lemma raw_numeric:
  "getitem (heap raw_session ! 0) ''padj''
     = Inr (map Num [Finite (1 / 1000), Finite (1 / 2), NaN, Finite (1 / 5)])"
  "getitem (heap raw_session ! 0) ''log2FoldChange''
     = Inr (map Num [Finite (5 / 2), NaN, Finite (- 3), Finite (1 / 5)])"
  "getitem (heap raw_session ! 0) ''baseMean''
     = Inr [Num (Finite 10), Num (Finite 20), Num (Finite 30), Num (Finite 0)]"
  by (simp_all add: raw_session_def raw_frame_def getitem_def)

text \<open>
  The instance of C4: of four loaded rows the second and third miss a value, the
  working table holds the first and the fourth.
\<close>

theorem ingested_rows_complete_and_classified_witness:
  "main_pipeline (\<lambda>x. []) raw_session 0 (Finite (1 / 20)) (Finite 1) (Finite (- 1))
     = (Inr 2, snd (main_pipeline (\<lambda>x. []) raw_session 0 (Finite (1 / 20)) (Finite 1) (Finite (- 1))))
   \<and> 0 < length (heap raw_session)
   \<and> wf_frame (heap raw_session ! 0)
   \<and> index (heap (snd (main_pipeline (\<lambda>x. []) raw_session 0 (Finite (1 / 20)) (Finite 1) (Finite (- 1)))) ! 2)
       = [0, 3]
   \<and> getitem (heap (snd (main_pipeline (\<lambda>x. []) raw_session 0 (Finite (1 / 20)) (Finite 1) (Finite (- 1)))) ! 2)
        ''baseMean'' = Inr [Num (Finite 10), Num (Finite 0)]"
proof -
  let ?run = "main_pipeline (\<lambda>x. []) raw_session 0 (Finite (1 / 20)) (Finite 1) (Finite (- 1))"
  from main_pipeline_returns [OF raw_hyps(1) raw_hyps(2) raw_numeric(1) raw_numeric(2) raw_rows,
      of "\<lambda>x. []" "Finite (1 / 20)" "Finite 1" "Finite (- 1)"]
  have 0: "?run = (Inr 2, snd ?run)" by (auto simp: raw_session_def)
  note T = ingested_rows_complete_and_classified [OF 0 raw_hyps(1) raw_hyps(2)]
  have "index (heap (snd ?run) ! 2)
          = map (\<lambda>i. index (heap raw_session ! 0) ! i) (complete_rows (heap raw_session ! 0))"
    by (rule T [THEN conjunct1])
  then have a: "index (heap (snd ?run) ! 2) = [0, 3]"
    unfolding raw_complete_rows by (simp add: raw_session_def raw_frame_def)
  have b: "getitem (heap (snd ?run) ! 2) ''baseMean''
             = Inr (map (\<lambda>i. [Num (Finite 10), Num (Finite 20), Num (Finite 30), Num (Finite 0)] ! i)
                      (complete_rows (heap raw_session ! 0)))"
    by (rule T [THEN conjunct2, THEN conjunct1, rule_format]) (simp add: raw_numeric(3))
  then have c: "getitem (heap (snd ?run) ! 2) ''baseMean'' = Inr [Num (Finite 10), Num (Finite 0)]"
    unfolding raw_complete_rows by simp
  from 0 raw_hyps(1) raw_hyps(2) a c show ?thesis by (intro conjI)
qed

subsection \<open>The pipeline and the views\<close>
























subsection \<open>The top genes of the heatmap\<close>









































end
